theory Spec2Isabelle
  imports Complex_Main "HOL-Library.AList"
begin

section \<open>Numbers, errors and Python helpers\<close>

text \<open>
  The tableau holds numpy floats. They are modelled by the rationals: the model follows
  the code as long as every float operation is exact and finite. The one place where the
  code leaves the finite numbers on purpose, \<open>float('inf')\<close>, is the type \<open>ext\<close>.
  A division of the pivot row by zero, which numpy answers with inf or nan and a warning,
  is the error \<open>NonFinite\<close> of the model.
\<close>

datatype error = Unbounded | Infeasible | IndexError | ValueError | NonFinite

datatype ext = Fin rat | PInf

fun ext_less :: "ext \<Rightarrow> ext \<Rightarrow> bool" where
  "ext_less (Fin a) (Fin b) = (a < b)"
| "ext_less (Fin a) PInf = True"
| "ext_less PInf _ = False"

text \<open>Python's \<open>min\<close> of a non-empty list: the first of the smallest elements.\<close>

fun py_min :: "ext list \<Rightarrow> ext" where
  "py_min [] = PInf"
| "py_min [x] = x"
| "py_min (x # xs) = (let m = py_min xs in if ext_less m x then m else x)"

text \<open>\<open>list.index\<close> and \<open>np.where(xs == v)[0][0]\<close>: the first position of a value.\<close>

fun index_of :: "'a \<Rightarrow> 'a list \<Rightarrow> nat option" where
  "index_of v [] = None"
| "index_of v (x # xs) = (if x = v then Some 0 else map_option Suc (index_of v xs))"

text \<open>\<open>xs[i] = v\<close> on a Python list: a negative index counts from the end.\<close>

definition set_item :: "int list \<Rightarrow> int \<Rightarrow> int \<Rightarrow> error + int list" where
  "set_item xs i v =
     (let n = int (length xs); j = (if i < 0 then n + i else i)
      in if 0 \<le> j \<and> j < n then Inr (xs[nat j := v]) else Inl IndexError)"

section \<open>Tableaux (lab03\_simplex/saport/simplex/solver.py)\<close>

text \<open>
  \<open>self.table\<close> is a two-dimensional numpy array: a list of rows of equal length, row 0
  the cost row, the last column the right-hand side. The constructor always builds the
  cost row, so a table is never empty. The back-reference \<open>self.model\<close> is read by
  \<open>__str__\<close> only and is left out.
\<close>

type_synonym table = "rat list list"

definition rectangular :: "table \<Rightarrow> bool" where
  "rectangular t = (t \<noteq> [] \<and> list_all (\<lambda>r. length r = length (hd t)) t)"

definition ncols :: "table \<Rightarrow> nat" where
  "ncols t = (case t of [] \<Rightarrow> 0 | r # _ \<Rightarrow> length r)"

definition column :: "table \<Rightarrow> nat \<Rightarrow> rat list" where
  "column t c = map (\<lambda>r. r ! c) t"

definition cost_factors :: "table \<Rightarrow> rat list" where
  "cost_factors t = (case t of [] \<Rightarrow> [] | r # _ \<Rightarrow> butlast r)"

definition is_optimal :: "table \<Rightarrow> bool" where
  "is_optimal t = list_all (\<lambda>factor. factor \<ge> 0) (cost_factors t)"

text \<open>
  \<open>factors_without_zeros == min(factors_without_zeros)\<close> compares a Python list with the
  minimum. When the minimum is a numpy float the comparison is elementwise and
  \<open>np.where(...)[0][0]\<close> is the first position of the minimum. When every factor is zero
  the minimum is the Python float inf, the comparison is the single value False and the
  indexing raises IndexError; on an empty list \<open>min\<close> raises ValueError.
\<close>

definition choose_entering_variable :: "table \<Rightarrow> error + nat" where
  "choose_entering_variable t =
     (let factors_without_zeros = map (\<lambda>v. if v \<noteq> 0 then Fin v else PInf) (cost_factors t)
      in if factors_without_zeros = [] then Inl ValueError
         else (case py_min factors_without_zeros of
                 PInf \<Rightarrow> Inl IndexError
               | Fin m \<Rightarrow> (case index_of (Fin m) factors_without_zeros of
                             None \<Rightarrow> Inl IndexError
                           | Some i \<Rightarrow> Inr i)))"

definition is_unbounded :: "table \<Rightarrow> nat \<Rightarrow> bool" where
  "is_unbounded t col = list_all (\<lambda>factor. factor \<le> 0) (column t col)"

text \<open>
  \<open>result = a / b\<close> is numpy's elementwise division: a zero divisor gives inf, -inf or
  nan, and each of the three becomes \<open>float('inf')\<close> in the next line (\<open>inf >= 0\<close> keeps
  inf, \<open>-inf >= 0\<close> and \<open>nan >= 0\<close> are False). A quotient \<open>-0.0\<close> passes \<open>a >= 0\<close>.
\<close>

definition ratio :: "rat \<Rightarrow> rat \<Rightarrow> ext" where
  "ratio a b = (if b = 0 then PInf else if a / b \<ge> 0 then Fin (a / b) else PInf)"

definition choose_leaving_variable :: "table \<Rightarrow> nat \<Rightarrow> error + nat" where
  "choose_leaving_variable t col =
     (let offset = 1;
          a = drop offset (map last t);
          b = drop offset (column t col);
          result = map (\<lambda>(x, y). ratio x y) (zip a b)
      in if result = [] then Inl ValueError
         else (case index_of (py_min result) result of
                 None \<Rightarrow> Inl ValueError
               | Some i \<Rightarrow> Inr (i + offset)))"

text \<open>
  \<open>pivot\<close> copies the table, divides the pivot row in place, overwrites the pivot column
  with the unit vector and then writes every cell outside the pivot row and the pivot
  column from the copy. Indexing outside the array raises IndexError.
\<close>

definition pivot :: "table \<Rightarrow> nat \<Rightarrow> nat \<Rightarrow> error + table" where
  "pivot t row col =
     (if \<not> (row < length t \<and> col < ncols t) then Inl IndexError
      else if t ! row ! col = 0 then Inl NonFinite
      else
        let old_table = t;
            t1 = t[row := map (\<lambda>x. x / (old_table ! row ! col)) (t ! row)];
            t2 = map (\<lambda>(i, r). r[col := (if i \<noteq> row then 0 else 1)]) (enumerate 0 t1);
            t3 = map (\<lambda>(r, cells).
                        map (\<lambda>(c, cell).
                               if row = r \<or> col = c then cell
                               else (let t_prim = old_table ! row ! c / old_table ! row ! col
                                     in old_table ! r ! c + (- (old_table ! r ! col)) * t_prim))
                            (enumerate 0 cells))
                     (enumerate 0 t2)
        in Inr t3)"

definition belongs_to_basis :: "rat list \<Rightarrow> bool" where
  "belongs_to_basis col =
     (col \<noteq> [] \<and> Min (set col) = 0 \<and> Max (set col) = 1 \<and> sum_list col = 1)"

text \<open>
  \<open>extract_basis\<close> looks at whole columns, cost row included, and stores column \<open>c\<close> at
  \<open>basis[row - 1]\<close>, where \<open>row\<close> is the first position of 1.0 in the column.
\<close>

fun extract_basis_loop :: "table \<Rightarrow> nat list \<Rightarrow> int list \<Rightarrow> error + int list" where
  "extract_basis_loop t [] basis = Inr basis"
| "extract_basis_loop t (c # cs) basis =
     (if belongs_to_basis (column t c)
      then (case index_of 1 (column t c) of
              None \<Rightarrow> Inl IndexError
            | Some row \<Rightarrow>
                (case set_item basis (int row - 1) (int c) of
                   Inl e \<Rightarrow> Inl e
                 | Inr basis' \<Rightarrow> extract_basis_loop t cs basis'))
      else extract_basis_loop t cs basis)"

definition extract_basis :: "table \<Rightarrow> error + int list" where
  "extract_basis t =
     (let rows_n = length t; cols_n = ncols t
      in extract_basis_loop t [0..<cols_n - 1] (replicate (rows_n - 1) (- 1)))"

text \<open>
  \<open>find_variable_value\<close> returns None when the column has no 1.0; \<open>extract_solution\<close>
  calls it only for a column of the basis, which holds one, so the value written for None
  below is never read.
\<close>

definition find_variable_value :: "rat list \<Rightarrow> rat list \<Rightarrow> rat option" where
  "find_variable_value col rhs = map_option (\<lambda>i. rhs ! i) (index_of 1 col)"

definition extract_solution :: "table \<Rightarrow> error + rat list" where
  "extract_solution t =
     (case extract_basis t of
        Inl e \<Rightarrow> Inl e
      | Inr variables_in_basis \<Rightarrow>
          (let var_count = ncols t - 1
           in Inr (map (\<lambda>col. if int col \<in> set variables_in_basis
                               then (case find_variable_value (column t col) (map last t) of
                                       Some v \<Rightarrow> v | None \<Rightarrow> 0)
                               else 0)
                       [0..<var_count])))"


text \<open>One pass of the body of the optimisation loop, entered when the tableau is not optimal.\<close>

definition step :: "table \<Rightarrow> error + table" where
  "step t =
     (case choose_entering_variable t of
        Inl e \<Rightarrow> Inl e
      | Inr pivot_col \<Rightarrow>
          if is_unbounded t pivot_col then Inl Unbounded
          else (case choose_leaving_variable t pivot_col of
                  Inl e \<Rightarrow> Inl e
                | Inr pivot_row \<Rightarrow> pivot t pivot_row pivot_col))"

text \<open>
  \<open>while not tableaux.is_optimal(): ...\<close> of \<open>Solver.solve\<close> (lab03) and of
  \<open>Solver._optimize\<close> (lab04). Nothing bounds the number of pivots: a run that never
  leaves the loop is the value None.
\<close>

partial_function (option) optimize :: "table \<Rightarrow> (error + table) option" where
  "optimize t =
     (if is_optimal t then Some (Inr t)
      else (case step t of Inl e \<Rightarrow> Some (Inl e) | Inr t' \<Rightarrow> optimize t'))"

declare optimize.simps [code]

text \<open>The tableaux after \<open>n\<close> passes of the loop body, when the loop makes that many.\<close>

fun pivots :: "nat \<Rightarrow> table \<Rightarrow> table option" where
  "pivots 0 t = Some t"
| "pivots (Suc n) t =
     (if is_optimal t then None
      else (case step t of Inl e \<Rightarrow> None | Inr t' \<Rightarrow> pivots n t'))"

section \<open>Models, expressions, constraints, objectives\<close>

text \<open>
  Modelled from the spec: the classes Variable, Expression, Constraint, Objective and
  Model (saport/simplex/model.py and saport/simplex/expressions/, of which only atom.py
  is present). A variable is addressed by its index, its position in \<open>model.variables\<close>;
  an expression is its list of atoms (variable index, factor); the right-hand side of a
  constraint lives in \<open>bound\<close>.
\<close>

datatype constraint_type = LE | EQ | GE

text \<open>\<open>ObjectiveType.MIN\<close> and \<open>ObjectiveType.MAX\<close>.\<close>

datatype objective_type = OMIN | OMAX

type_synonym atom = "nat \<times> rat"

type_synonym expression = "atom list"

record constraint =
  c_expression :: expression
  c_type :: constraint_type
  bound :: rat

record objective =
  o_expression :: expression
  o_type :: objective_type

record model =
  variables :: "string list"
  constraints :: "constraint list"
  objective :: objective

text \<open>Atom.\_\_mul\_\_ (atom.py): \<open>Atom(self.var, self.factor * factor)\<close>, on every atom.\<close>

definition scale :: "rat \<Rightarrow> expression \<Rightarrow> expression" where
  "scale k e = map (\<lambda>(var, factor). (var, factor * k)) e"

text \<open>
  Modelled from the spec: \<open>Expression.factors(model)\<close>, the dense vector of length
  \<open>|model.variables|\<close>, zero for absent variables, the atoms of one variable summed; and
  \<open>Expression.evaluate(assignment)\<close>, the dot product of factors and assigned values.
\<close>

definition factors :: "model \<Rightarrow> expression \<Rightarrow> rat list" where
  "factors m e =
     map (\<lambda>i. sum_list (map snd (filter (\<lambda>(var, factor). var = i) e)))
         [0..<length (variables m)]"

definition evaluate :: "expression \<Rightarrow> rat list \<Rightarrow> rat" where
  "evaluate e assignment = sum_list (map (\<lambda>(var, factor). factor * assignment ! var) e)"

text \<open>
  Modelled from the spec: \<open>Objective.invert()\<close> negates the expression and flips the
  direction; \<open>Constraint.invert()\<close> multiplies expression and bound by -1 and flips the
  relation, \<open>=\<close> staying \<open>=\<close>; \<open>Model.create_variable(name)\<close> appends a variable and
  returns it, its index the number of variables before.
\<close>

definition invert_objective :: "objective \<Rightarrow> objective" where
  "invert_objective ob =
     ob\<lparr>o_expression := scale (- 1) (o_expression ob),
        o_type := (case o_type ob of OMIN \<Rightarrow> OMAX | OMAX \<Rightarrow> OMIN)\<rparr>"

definition invert_constraint :: "constraint \<Rightarrow> constraint" where
  "invert_constraint c =
     c\<lparr>c_expression := scale (- 1) (c_expression c),
       bound := bound c * (- 1),
       c_type := (case c_type c of LE \<Rightarrow> GE | EQ \<Rightarrow> EQ | GE \<Rightarrow> LE)\<rparr>"

definition create_variable :: "model \<Rightarrow> string \<Rightarrow> nat \<times> model" where
  "create_variable m name = (length (variables m), m\<lparr>variables := variables m @ [name]\<rparr>)"

text \<open>Modelled from the spec: the value of the enumeration member \<open>ConstraintType.LE\<close>,
  chosen so that a slack variable enters with coefficient +1.\<close>

definition LE_value :: rat where
  "LE_value = - 1"

text \<open>The decimal digits of \<open>f"{i}"\<close>.\<close>

fun show_nat :: "nat \<Rightarrow> string" where
  "show_nat n =
     (if n < 10 then [''0123456789'' ! n]
      else show_nat (n div 10) @ [''0123456789'' ! (n mod 10)])"

section \<open>The store of model objects\<close>

text \<open>
  Models are mutable objects, and the solver mutates the ones it is handed. The store is
  the list of the model objects alive, a reference is a position in it. \<open>deepcopy\<close>
  allocates a new object with the same contents; a method that mutates the model it is
  given is a function from model to model run on the object at that reference.
\<close>

type_synonym store = "model list"

definition deepcopy :: "store \<Rightarrow> nat \<Rightarrow> nat \<times> store" where
  "deepcopy st r = (length st, st @ [st ! r])"

definition in_place :: "store \<Rightarrow> nat \<Rightarrow> (model \<Rightarrow> model) \<Rightarrow> store" where
  "in_place st r f = st[r := f (st ! r)]"

text \<open>
  Modelled from the spec: \<open>Solution\<close> of lab04 (saport/simplex/solution.py), the model
  it is bound to and the assignment, as the class of the same name in lab03's solver.py.
\<close>

record solution =
  sol_model :: nat
  assignment :: "rat list"

definition objective_value :: "store \<Rightarrow> solution \<Rightarrow> rat" where
  "objective_value st s = evaluate (o_expression (objective (st ! sol_model s))) (assignment s)"

text \<open>The outcome of a computation that may raise or run forever.\<close>

definition bind_res :: "(error + 'a) option \<Rightarrow> ('a \<Rightarrow> (error + 'b) option) \<Rightarrow> (error + 'b) option" where
  "bind_res x f = (case x of None \<Rightarrow> None | Some (Inl e) \<Rightarrow> Some (Inl e) | Some (Inr v) \<Rightarrow> f v)"


definition in_place_ret :: "store \<Rightarrow> nat \<Rightarrow> (model \<Rightarrow> model \<times> 'r) \<Rightarrow> store \<times> 'r" where
  "in_place_ret st r f = (let (m, res) = f (st ! r) in (st[r := m], res))"

text \<open>Reading position \<open>i\<close> of a sequence of length \<open>n\<close>, negative positions from the end.\<close>

definition py_index :: "nat \<Rightarrow> int \<Rightarrow> error + nat" where
  "py_index n i =
     (let j = (if i < 0 then int n + i else i)
      in if 0 \<le> j \<and> j < int n then Inr (nat j) else Inl IndexError)"

section \<open>The two-phase solver (lab04\_general\_simplex-master/saport/simplex/solver.py)\<close>

text \<open>
  The dictionaries \<open>slack_variables\<close>, \<open>surplus_variables\<close> and \<open>artificial_variables\<close>
  map a variable to the position of its constraint. They are association lists in
  insertion order, keyed by the variable's index; the fields of \<open>self\<close> that hold them
  are passed and returned explicitly. The module saport/simplex/tableaux.py of lab04 is
  not present: \<open>Tableaux\<close> is the class of lab03 above.
\<close>

type_synonym var_dict = "(nat \<times> nat) list"

definition basic_initial_tableaux :: "model \<Rightarrow> table" where
  "basic_initial_tableaux m =
     (let cost_row = factors m (scale (- 1) (o_expression (objective m))) @ [0]
      in [cost_row] @ map (\<lambda>c. factors m (c_expression c) @ [bound c]) (constraints m))"

definition change_objective_to_max :: "model \<Rightarrow> model" where
  "change_objective_to_max m =
     (if o_type (objective m) = OMIN then m\<lparr>objective := invert_objective (objective m)\<rparr> else m)"

definition change_constraints_bounds_to_nonnegative :: "model \<Rightarrow> model" where
  "change_constraints_bounds_to_nonnegative m =
     m\<lparr>constraints := map (\<lambda>constraint. if bound constraint < 0 then invert_constraint constraint
                                        else constraint) (constraints m)\<rparr>"

text \<open>
  The three loops below run over the constraints with their positions; each creates a
  variable named after the position and appends an atom of it to the constraint's
  expression: \<open>+ slack_var\<close>, \<open>- var\<close>, \<open>+= var\<close>.
\<close>

definition add_variable_to_constraint :: "string \<Rightarrow> rat \<Rightarrow> nat \<Rightarrow> model \<times> var_dict \<Rightarrow> model \<times> var_dict" where
  "add_variable_to_constraint prefix factor i =
     (\<lambda>(m, d).
        let constraint = constraints m ! i;
            (var, m1) = create_variable m (prefix @ show_nat i)
        in (m1\<lparr>constraints := (constraints m1)
                  [i := constraint\<lparr>c_expression := c_expression constraint @ [(var, factor)]\<rparr>]\<rparr>,
            AList.update var i d))"

definition add_slack_variables :: "model \<Rightarrow> model \<times> var_dict" where
  "add_slack_variables m =
     fold (\<lambda>i (m, slack_variables).
             if c_type (constraints m ! i) = LE
             then add_variable_to_constraint ''s'' 1 i (m, slack_variables)
             else (m, slack_variables))
          [0..<length (constraints m)] (m, [])"

definition add_surplus_variables :: "model \<Rightarrow> model \<times> var_dict" where
  "add_surplus_variables m =
     fold (\<lambda>i (m, surplus_variables).
             if c_type (constraints m ! i) = GE
             then add_variable_to_constraint ''s'' (- 1) i (m, surplus_variables)
             else (m, surplus_variables))
          [0..<length (constraints m)] (m, [])"

definition add_artificial_variables :: "model \<Rightarrow> model \<times> var_dict" where
  "add_artificial_variables m =
     fold (\<lambda>i (m, artificial_variables).
             if c_type (constraints m ! i) = GE \<or> c_type (constraints m ! i) = EQ
             then add_variable_to_constraint ''R'' 1 i (m, artificial_variables)
             else (m, artificial_variables))
          [0..<length (constraints m)] (m, [])"

text \<open>\<open>_normalize_model\<close>: returns the reference of the normalised copy and the two dictionaries.\<close>

definition normalize_model :: "store \<Rightarrow> nat \<Rightarrow> store \<times> nat \<times> var_dict \<times> var_dict" where
  "normalize_model st original_model =
     (let (model, st1) = deepcopy st original_model;
          st2 = in_place st1 model change_objective_to_max;
          st3 = in_place st2 model change_constraints_bounds_to_nonnegative;
          (st4, slack_variables) = in_place_ret st3 model add_slack_variables;
          (st5, surplus_variables) = in_place_ret st4 model add_surplus_variables
      in (st5, model, slack_variables, surplus_variables))"

definition create_presolve_model :: "store \<Rightarrow> nat \<Rightarrow> store \<times> nat \<times> var_dict" where
  "create_presolve_model st normalized_model =
     (let (presolve_model, st1) = deepcopy st normalized_model;
          (st2, artificial_variables) = in_place_ret st1 presolve_model add_artificial_variables
      in (st2, presolve_model, artificial_variables))"

definition prepare_first_phase_objective :: "store \<Rightarrow> nat \<Rightarrow> var_dict \<Rightarrow> store \<times> nat" where
  "prepare_first_phase_objective st model0 artificial_variables =
     (let (model, st1) = deepcopy st model0;
          new_objective = objective (st1 ! model);
          zeroed = new_objective\<lparr>o_expression :=
                      map (\<lambda>(var, factor). (var, 0)) (o_expression new_objective)\<rparr>;
          new_objective' = fold (\<lambda>variable ob. ob\<lparr>o_expression := o_expression ob @ [(variable, - 1)]\<rparr>)
                                (map fst artificial_variables) zeroed
      in (in_place st1 model (\<lambda>m. m\<lparr>objective := new_objective'\<rparr>), model))"

text \<open>
  \<open>_fix_missing_basis\<close>: \<open>cost_row\<close> is a view of row 0 and is updated in place, the
  factors are read from the copy \<open>initial_cost_row\<close>; the column is searched for 1.0 below
  the cost row. A basis entry -1 addresses the last column.
\<close>

fun fix_missing_basis_loop :: "table \<Rightarrow> rat list \<Rightarrow> int list \<Rightarrow> rat list \<Rightarrow> error + rat list" where
  "fix_missing_basis_loop t initial_cost_row [] cost_row = Inr cost_row"
| "fix_missing_basis_loop t initial_cost_row (col_ind # basis) cost_row =
     (case py_index (ncols t) col_ind of
        Inl e \<Rightarrow> Inl e
      | Inr j \<Rightarrow>
          (case index_of 1 (drop 1 (column t j)) of
             None \<Rightarrow> Inl IndexError
           | Some k \<Rightarrow>
               (let basis_row_ind = k + 1;
                    basis_row = t ! basis_row_ind
                in fix_missing_basis_loop t initial_cost_row basis
                     (map (\<lambda>(x, y). x - y * initial_cost_row ! j) (zip cost_row basis_row)))))"

definition fix_missing_basis :: "table \<Rightarrow> int list \<Rightarrow> error + table" where
  "fix_missing_basis t basis =
     (case fix_missing_basis_loop t (t ! 0) basis (t ! 0) of
        Inl e \<Rightarrow> Inl e
      | Inr cost_row \<Rightarrow> Inr (t[0 := cost_row]))"

definition presolve_initial_tableaux :: "store \<Rightarrow> nat \<Rightarrow> var_dict \<Rightarrow> store \<times> (error + table)" where
  "presolve_initial_tableaux st model0 artificial_variables =
     (let (st1, model) = prepare_first_phase_objective st model0 artificial_variables;
          tableaux = basic_initial_tableaux (st1 ! model);
          basis = map (\<lambda>(var, i). int var) artificial_variables
      in (st1, fix_missing_basis tableaux basis))"

definition artifical_variables_are_positive :: "table \<Rightarrow> var_dict \<Rightarrow> error + bool" where
  "artifical_variables_are_positive t artificial_variables =
     (case extract_basis t of
        Inl e \<Rightarrow> Inl e
      | Inr solution \<Rightarrow>
          (let artificial = map (\<lambda>(var, i). int var) artificial_variables
           in Inr (list_ex (\<lambda>x. x \<in> set artificial) solution)))"

text \<open>\<open>np.delete(table, indices, 1)\<close> removes the columns, and raises on an index outside the table.\<close>

definition remove_artificial_variables :: "table \<Rightarrow> var_dict \<Rightarrow> error + table" where
  "remove_artificial_variables t artificial_variables =
     (let indices = map fst artificial_variables
      in if list_ex (\<lambda>i. \<not> i < ncols t) indices then Inl IndexError
         else Inr (map (\<lambda>r. map snd (filter (\<lambda>(i, x). i \<notin> set indices) (enumerate 0 r))) t))"

text \<open>\<open>tableaux.table[0, :] = cost_row\<close>: the shapes must agree, a row of one cell is broadcast.\<close>

definition restore_original_cost_row :: "table \<Rightarrow> model \<Rightarrow> error + table" where
  "restore_original_cost_row t original_model =
     (let cost_row = basic_initial_tableaux original_model ! 0
      in if length cost_row = ncols t then Inr (t[0 := cost_row])
         else if length cost_row = 1 then Inr (t[0 := replicate (ncols t) (cost_row ! 0)])
         else Inl ValueError)"

definition fix_cost_row_to_the_basis :: "table \<Rightarrow> int list \<Rightarrow> error + table" where
  "fix_cost_row_to_the_basis t basis = fix_missing_basis t basis"

text \<open>
  The part of \<open>_presolve\<close> after the first-phase tableau has been optimised: the
  feasibility check and the passage to the second phase.
\<close>

definition second_phase_tableaux :: "table \<Rightarrow> var_dict \<Rightarrow> model \<Rightarrow> error + table" where
  "second_phase_tableaux t artificial_variables model =
     (case artifical_variables_are_positive t artificial_variables of
        Inl e \<Rightarrow> Inl e
      | Inr positive \<Rightarrow>
          if positive then Inl Infeasible
          else (case extract_basis t of
                  Inl e \<Rightarrow> Inl e
                | Inr basis \<Rightarrow>
                    (case remove_artificial_variables t artificial_variables of
                       Inl e \<Rightarrow> Inl e
                     | Inr t1 \<Rightarrow>
                         (case restore_original_cost_row t1 model of
                            Inl e \<Rightarrow> Inl e
                          | Inr t2 \<Rightarrow> fix_cost_row_to_the_basis t2 basis))))"

definition presolve :: "store \<Rightarrow> nat \<Rightarrow> store \<times> (error + table) option" where
  "presolve st model =
     (let (st1, presolve_model, artificial_variables) = create_presolve_model st model;
          (st2, tableaux) = presolve_initial_tableaux st1 presolve_model artificial_variables
      in (st2, bind_res (Some tableaux) (\<lambda>t0.
                 bind_res (optimize t0) (\<lambda>t.
                   Some (second_phase_tableaux t artificial_variables (st2 ! model))))))"

text \<open>\<open>solution.value(var)\<close> is \<open>assignment[var.index]\<close>, for each variable of the model.\<close>

definition translate_to_original_model :: "rat list \<Rightarrow> store \<Rightarrow> nat \<Rightarrow> error + solution" where
  "translate_to_original_model sol st model =
     (let indices = [0..<length (variables (st ! model))]
      in if list_ex (\<lambda>i. \<not> i < length sol) indices then Inl IndexError
         else Inr \<lparr>sol_model = model, assignment = map (\<lambda>i. sol ! i) indices\<rparr>)"

text \<open>
  \<open>Solver.solve\<close>: the store when the call ends, and its outcome: a solution, an
  exception, or None for a call that does not end.
\<close>

definition solve :: "store \<Rightarrow> nat \<Rightarrow> store \<times> (error + solution) option" where
  "solve st model =
     (let (st1, normal_model, slack_variables, surplus_variables) = normalize_model st model;
          (st2, tableaux) =
             (if length slack_variables < length (constraints (st1 ! normal_model))
              then presolve st1 normal_model
              else (st1, Some (Inr (basic_initial_tableaux (st1 ! normal_model)))))
      in (st2, bind_res tableaux (\<lambda>t0.
                 bind_res (optimize t0) (\<lambda>t.
                   bind_res (Some (extract_solution t)) (\<lambda>sol.
                     Some (translate_to_original_model sol st2 model))))))"

section \<open>The one-phase solver (lab03\_simplex/saport/simplex/solver.py)\<close>

definition lab03_normalize_step :: "nat \<Rightarrow> model \<times> var_dict \<Rightarrow> model \<times> var_dict" where
  "lab03_normalize_step i =
     (\<lambda>(m, slack_variables).
        if c_type (constraints m ! i) \<noteq> EQ
        then (let (slack_var, m1) = create_variable m (''s'' @ show_nat i);
                  constraint = constraints m1 ! i;
                  constraint1 = (if bound constraint < 0 then invert_constraint constraint
                                 else constraint);
                  constraint2 = constraint1\<lparr>c_expression :=
                                   c_expression constraint1 @ [(slack_var, 1 * LE_value * (- 1))]\<rparr>;
                  constraint3 = constraint2\<lparr>c_type := EQ\<rparr>
              in (m1\<lparr>constraints := (constraints m1)[i := constraint3]\<rparr>,
                  AList.update slack_var i slack_variables))
        else (m, slack_variables))"

definition lab03_normalize_model :: "model \<Rightarrow> model \<times> var_dict" where
  "lab03_normalize_model m =
     (let m1 = (if o_type (objective m) = OMIN then m\<lparr>objective := invert_objective (objective m)\<rparr>
                else m)
      in fold lab03_normalize_step [0..<length (constraints m1)] (m1, []))"

definition lab03_solve :: "store \<Rightarrow> nat \<Rightarrow> store \<times> (error + solution) option" where
  "lab03_solve st model =
     (let (copy, st1) = deepcopy st model;
          (st2, slack_variables) = in_place_ret st1 copy lab03_normalize_model;
          normal_model = copy;
          tableaux = basic_initial_tableaux (st2 ! normal_model)
      in (st2, bind_res (optimize tableaux) (\<lambda>t.
                 bind_res (Some (extract_solution t)) (\<lambda>a.
                   Some (Inr \<lparr>sol_model = normal_model, assignment = a\<rparr>)))))"

section \<open>Example models and tableaux\<close>

text \<open>
  The model of lab07's integer\_01\_solvable.py: maximize \<open>5 x1 + 8 x2\<close> subject to
  \<open>x1 + x2 \<le> 6\<close> and \<open>5 x1 + 9 x2 \<le> 45\<close>; and its first tableau.
\<close>

definition integer_01_solvable :: model where
  "integer_01_solvable =
     \<lparr>variables = [''x1'', ''x2''],
      constraints = [\<lparr>c_expression = [(0, 1), (1, 1)], c_type = LE, bound = 6\<rparr>,
                     \<lparr>c_expression = [(0, 5), (1, 9)], c_type = LE, bound = 45\<rparr>],
      objective = \<lparr>o_expression = [(0, 5), (1, 8)], o_type = OMAX\<rparr>\<rparr>"

definition integer_01_tableaux :: table where
  "integer_01_tableaux = [[- 5, - 8, 0, 0, 0], [1, 1, 1, 0, 6], [5, 9, 0, 1, 45]]"

text \<open>
  Maximize \<open>x1\<close> subject to \<open>x1 = 1\<close> and \<open>x1 = 1\<close>: a feasible model with a redundant
  equation, so that an artificial variable stays in the basis with value 0.
\<close>

definition redundant_equalities :: model where
  "redundant_equalities =
     \<lparr>variables = [''x1''],
      constraints = [\<lparr>c_expression = [(0, 1)], c_type = EQ, bound = 1\<rparr>,
                     \<lparr>c_expression = [(0, 1)], c_type = EQ, bound = 1\<rparr>],
      objective = \<lparr>o_expression = [(0, 1)], o_type = OMAX\<rparr>\<rparr>"

text \<open>
  Maximize \<open>x1\<close> subject to \<open>- x1 \<le> 0\<close> and \<open>x1 \<le> 2\<close>: the first constraint row has a
  negative entry in the column of \<open>x1\<close> and right-hand side 0.
\<close>

definition degenerate_ratio :: model where
  "degenerate_ratio =
     \<lparr>variables = [''x1''],
      constraints = [\<lparr>c_expression = [(0, - 1)], c_type = LE, bound = 0\<rparr>,
                     \<lparr>c_expression = [(0, 1)], c_type = LE, bound = 2\<rparr>],
      objective = \<lparr>o_expression = [(0, 1)], o_type = OMAX\<rparr>\<rparr>"

definition degenerate_ratio_tableaux :: table where
  "degenerate_ratio_tableaux = [[- 1, 0, 0, 0], [- 1, 1, 0, 0], [1, 0, 1, 2]]"

text \<open>
  Maximize \<open>x1 - x2\<close> subject to \<open>x1 \<le> 5\<close>: \<open>x2\<close> occurs in no constraint and has
  cost-row factor 1.
\<close>

definition free_cost_column :: model where
  "free_cost_column =
     \<lparr>variables = [''x1'', ''x2''],
      constraints = [\<lparr>c_expression = [(0, 1)], c_type = LE, bound = 5\<rparr>],
      objective = \<lparr>o_expression = [(0, 1), (1, - 1)], o_type = OMAX\<rparr>\<rparr>"

text \<open>
  The artificial variables and the tableau that \<open>_presolve\<close> hands to \<open>_optimize\<close>, for
  the normalised model at a reference.
\<close>

definition first_phase_tableaux :: "store \<Rightarrow> nat \<Rightarrow> var_dict \<times> (error + table)" where
  "first_phase_tableaux st model =
     (let (st1, presolve_model, artificial_variables) = create_presolve_model st model;
          (st2, tableaux) = presolve_initial_tableaux st1 presolve_model artificial_variables
      in (artificial_variables, tableaux))"

text \<open>
  A store \<open>st'\<close> extends a store \<open>st\<close> when every object of \<open>st\<close> is in \<open>st'\<close>, at the
  same reference and with the same contents.
\<close>

definition extends :: "store \<Rightarrow> store \<Rightarrow> bool" where
  "extends st st' = (length st \<le> length st' \<and> take (length st) st' = st)"

text \<open>
  What \<open>solve\<close> does with the initial tableau of the second phase, once it has it:
  \<open>_optimize\<close>, \<open>extract_solution\<close>, \<open>_translate_to_original_model\<close>.
\<close>

definition solve_from_tableaux :: "store \<Rightarrow> nat \<Rightarrow> (error + table) option \<Rightarrow> (error + solution) option" where
  "solve_from_tableaux st model tableaux =
     bind_res tableaux (\<lambda>t0.
       bind_res (optimize t0) (\<lambda>t.
         bind_res (Some (extract_solution t)) (\<lambda>sol.
           Some (translate_to_original_model sol st model))))"

text \<open>
  The loop started on \<open>t0\<close> comes, after some number of pivots, to a tableau that is not
  optimal and whose entering column \<open>is_unbounded\<close>.
\<close>

definition unbounded_run :: "table \<Rightarrow> bool" where
  "unbounded_run t0 =
     (\<exists>n t col. pivots n t0 = Some t \<and> \<not> is_optimal t \<and>
                choose_entering_variable t = Inr col \<and> is_unbounded t col)"

text \<open>Maximize \<open>x1\<close> subject to \<open>x2 \<le> 1\<close>: nothing bounds \<open>x1\<close>.\<close>

definition unbounded_model :: model where
  "unbounded_model =
     \<lparr>variables = [''x1'', ''x2''],
      constraints = [\<lparr>c_expression = [(1, 1)], c_type = LE, bound = 1\<rparr>],
      objective = \<lparr>o_expression = [(0, 1)], o_type = OMAX\<rparr>\<rparr>"

text \<open>
  A model whose expressions are over its own variables: every atom of a constraint and of
  the objective names a variable by an index below the number of variables, as it is for
  a model whose variables all come from \<open>create_variable\<close>.
\<close>

definition well_formed :: "model \<Rightarrow> bool" where
  "well_formed m =
     (list_all (\<lambda>c. list_all (\<lambda>(var, factor). var < length (variables m)) (c_expression c))
               (constraints m) \<and>
      list_all (\<lambda>(var, factor). var < length (variables m)) (o_expression (objective m)))"

text \<open>
  The model of lab04's zad1.py: maximize \<open>2 x1 + x2 + 3 x3\<close> subject to
  \<open>x1 + x2 + x3 \<le> 30\<close>, \<open>x1 + 2 x2 + x3 \<ge> 10\<close> and \<open>2 x2 + x3 \<le> 20\<close>.
\<close>

definition zad1 :: model where
  "zad1 =
     \<lparr>variables = [''x1'', ''x2'', ''x3''],
      constraints = [\<lparr>c_expression = [(0, 1), (1, 1), (2, 1)], c_type = LE, bound = 30\<rparr>,
                     \<lparr>c_expression = [(0, 1), (1, 2), (2, 1)], c_type = GE, bound = 10\<rparr>,
                     \<lparr>c_expression = [(1, 2), (2, 1)], c_type = LE, bound = 20\<rparr>],
      objective = \<lparr>o_expression = [(0, 2), (1, 1), (2, 3)], o_type = OMAX\<rparr>\<rparr>"

text \<open>
  The three copies \<open>solve\<close> makes of it: the normalised model (slack variables \<open>s0\<close>,
  \<open>s2\<close>, surplus variable \<open>s1\<close>), the presolve model (artificial variable \<open>R1\<close>) and the
  model with the objective of the first phase.
\<close>

definition zad1_normal :: model where
  "zad1_normal =
     \<lparr>variables = [''x1'', ''x2'', ''x3'', ''s0'', ''s2'', ''s1''],
      constraints = [\<lparr>c_expression = [(0, 1), (1, 1), (2, 1), (3, 1)], c_type = LE, bound = 30\<rparr>,
                     \<lparr>c_expression = [(0, 1), (1, 2), (2, 1), (5, - 1)], c_type = GE, bound = 10\<rparr>,
                     \<lparr>c_expression = [(1, 2), (2, 1), (4, 1)], c_type = LE, bound = 20\<rparr>],
      objective = \<lparr>o_expression = [(0, 2), (1, 1), (2, 3)], o_type = OMAX\<rparr>\<rparr>"

definition zad1_presolve :: model where
  "zad1_presolve =
     \<lparr>variables = [''x1'', ''x2'', ''x3'', ''s0'', ''s2'', ''s1'', ''R1''],
      constraints = [\<lparr>c_expression = [(0, 1), (1, 1), (2, 1), (3, 1)], c_type = LE, bound = 30\<rparr>,
                     \<lparr>c_expression = [(0, 1), (1, 2), (2, 1), (5, - 1), (6, 1)], c_type = GE, bound = 10\<rparr>,
                     \<lparr>c_expression = [(1, 2), (2, 1), (4, 1)], c_type = LE, bound = 20\<rparr>],
      objective = \<lparr>o_expression = [(0, 2), (1, 1), (2, 3)], o_type = OMAX\<rparr>\<rparr>"

definition zad1_first_phase :: model where
  "zad1_first_phase =
     \<lparr>variables = [''x1'', ''x2'', ''x3'', ''s0'', ''s2'', ''s1'', ''R1''],
      constraints = [\<lparr>c_expression = [(0, 1), (1, 1), (2, 1), (3, 1)], c_type = LE, bound = 30\<rparr>,
                     \<lparr>c_expression = [(0, 1), (1, 2), (2, 1), (5, - 1), (6, 1)], c_type = GE, bound = 10\<rparr>,
                     \<lparr>c_expression = [(1, 2), (2, 1), (4, 1)], c_type = LE, bound = 20\<rparr>],
      objective = \<lparr>o_expression = [(0, 0), (1, 0), (2, 0), (6, - 1)], o_type = OMAX\<rparr>\<rparr>"

section \<open>Properties of the tableau operations\<close>

lemma index_of_Some_iff:
  "index_of v xs = Some i \<longleftrightarrow> i < length xs \<and> xs ! i = v \<and> (\<forall>j<i. xs ! j \<noteq> v)"
proof (induction xs arbitrary: i)
  case Nil
  then show ?case by simp
next
  case (Cons x xs)
  show ?case
  proof (cases "x = v")
    case True
    then show ?thesis by (cases i) auto
  next
    case False
    then show ?thesis
      by (cases i) (auto simp: Cons.IH less_Suc_eq_0_disj)
  qed
qed

lemma index_of_mem: "v \<in> set xs \<Longrightarrow> \<exists>i. index_of v xs = Some i"
  by (induction xs) auto

lemma py_min_mem: "xs \<noteq> [] \<Longrightarrow> py_min xs \<in> set xs"
  by (induction xs rule: py_min.induct) (auto simp: Let_def)

lemma py_min_least: "x \<in> set xs \<Longrightarrow> \<not> ext_less x (py_min xs)"
proof (induction xs rule: py_min.induct)
  case 1
  then show ?case by simp
next
  case (2 y)
  then show ?case by (cases y) auto
next
  case (3 y z zs)
  let ?m = "py_min (z # zs)"
  show ?case
  proof (cases "ext_less ?m y")
    case True
    with 3 show ?thesis
      by (cases x; cases y; cases ?m) (auto simp: Let_def)
  next
    case False
    have "\<not> ext_less x y"
    proof (cases "x = y")
      case True
      then show ?thesis by (cases y) auto
    next
      case neq: False
      with 3 have "\<not> ext_less x ?m" by auto
      with False show ?thesis
        by (cases x; cases y; cases ?m) auto
    qed
    with False show ?thesis by (simp add: Let_def)
  qed
qed

lemma not_optimal_negative:
  "\<not> is_optimal t \<Longrightarrow> \<exists>k<length (cost_factors t). cost_factors t ! k < 0"
  by (auto simp: is_optimal_def list_all_length not_le)

lemma ncols_rect: "rectangular t \<Longrightarrow> r < length t \<Longrightarrow> length (t ! r) = ncols t"
  by (cases t) (auto simp: rectangular_def ncols_def list_all_length)

lemma pivot_Inr:
  "row < length t \<Longrightarrow> col < ncols t \<Longrightarrow> t ! row ! col \<noteq> 0 \<Longrightarrow> \<exists>t'. pivot t row col = Inr t'"
  by (simp add: pivot_def Let_def)

lemma pivot_length: "pivot t row col = Inr t' \<Longrightarrow> length t' = length t"
  by (auto simp: pivot_def Let_def split: if_splits)

lemma pivot_row_length:
  "pivot t row col = Inr t' \<Longrightarrow> r < length t \<Longrightarrow> length (t' ! r) = length (t ! r)"
  by (auto simp: pivot_def Let_def nth_enumerate_eq nth_list_update split: if_splits)

lemma pivot_cell:
  "pivot t row col = Inr t' \<Longrightarrow> r < length t \<Longrightarrow> c < length (t ! r) \<Longrightarrow>
   t' ! r ! c = (if r = row then (if c = col then 1 else t ! row ! c / t ! row ! col)
                  else if c = col then 0
                  else t ! r ! c - t ! r ! col * (t ! row ! c / t ! row ! col))"
  by (auto simp: pivot_def Let_def nth_enumerate_eq nth_list_update split: if_splits)

text \<open>
  C4. On a rectangular table, with the pivot cell inside the table and not zero,
  \<open>pivot\<close> returns a table of the same shape in which the pivot cell is 1, every other
  cell of the pivot column is 0, the pivot row is the old pivot row divided by the pivot
  element, and every other cell is
  \<open>old[r,c] - old[r,col] * (old[row,c] / old[row,col])\<close>, all read from the table
  before the pivot.
\<close>

theorem pivot_gauss_jordan:
  assumes "rectangular t" "row < length t" "col < ncols t" "t ! row ! col \<noteq> 0"
  shows "\<exists>t'. pivot t row col = Inr t' \<and> length t' = length t \<and>
           (\<forall>r<length t. length (t' ! r) = ncols t \<and>
              (\<forall>c<ncols t. t' ! r ! c =
                 (if r = row then (if c = col then 1 else t ! row ! c / t ! row ! col)
                  else if c = col then 0
                  else t ! r ! c - t ! r ! col * (t ! row ! c / t ! row ! col))))"
proof -
  from assms obtain t' where p: "pivot t row col = Inr t'"
    using pivot_Inr by blast
  have "length (t' ! r) = ncols t" if "r < length t" for r
    using pivot_row_length [OF p that] ncols_rect [OF assms(1) that] by simp
  moreover have "t' ! r ! c = (if r = row then (if c = col then 1 else t ! row ! c / t ! row ! col)
                  else if c = col then 0
                  else t ! r ! c - t ! r ! col * (t ! row ! c / t ! row ! col))"
    if "r < length t" "c < ncols t" for r c
    using pivot_cell [OF p that(1)] ncols_rect [OF assms(1) that(1)] that(2) by simp
  ultimately show ?thesis using p pivot_length [OF p] by blast
qed

theorem pivot_gauss_jordan_witness:
  "rectangular integer_01_tableaux \<and> 2 < length integer_01_tableaux \<and>
   1 < ncols integer_01_tableaux \<and> integer_01_tableaux ! 2 ! 1 \<noteq> 0 \<and>
   (\<exists>t'. pivot integer_01_tableaux 2 1 = Inr t' \<and> t' ! 2 ! 1 = 1 \<and> t' ! 0 ! 1 = 0 \<and>
         t' ! 1 ! 1 = 0 \<and> t' ! 0 ! 4 = 40)"
proof -
  have h: "rectangular integer_01_tableaux" "2 < length integer_01_tableaux"
    "1 < ncols integer_01_tableaux" "integer_01_tableaux ! 2 ! 1 \<noteq> 0"
    by (simp_all add: integer_01_tableaux_def rectangular_def ncols_def)
  from pivot_gauss_jordan [OF h] obtain t' where
    p: "pivot integer_01_tableaux 2 1 = Inr t'" and
    cells: "\<forall>r<length integer_01_tableaux. \<forall>c<ncols integer_01_tableaux. t' ! r ! c =
       (if r = 2 then (if c = 1 then 1 else integer_01_tableaux ! 2 ! c / integer_01_tableaux ! 2 ! 1)
        else if c = 1 then 0
        else integer_01_tableaux ! r ! c -
             integer_01_tableaux ! r ! 1 * (integer_01_tableaux ! 2 ! c / integer_01_tableaux ! 2 ! 1))"
    by blast
  have n: "length integer_01_tableaux = 3" "ncols integer_01_tableaux = 5"
    by (simp_all add: integer_01_tableaux_def ncols_def)
  have "t' ! 2 ! 1 = 1" using cells [rule_format, of 2 1] n by simp
  moreover have "t' ! 0 ! 1 = 0" using cells [rule_format, of 0 1] n by simp
  moreover have "t' ! 1 ! 1 = 0" using cells [rule_format, of 1 1] n by simp
  moreover have "t' ! 0 ! 4 = 40"
    using cells [rule_format, of 0 4] n by (simp add: integer_01_tableaux_def)
  ultimately show ?thesis using h p by blast
qed

text \<open>
  C5. On a tableau that is not optimal, \<open>choose_entering_variable\<close> returns a column of
  the cost row whose factor is negative and not above any other factor (so not above any
  factor that is not zero, the zeros having been replaced by infinity), and no column
  before it holds the same factor.
\<close>

theorem choose_entering_most_negative:
  assumes "\<not> is_optimal t"
  shows "\<exists>j. choose_entering_variable t = Inr j \<and> j < length (cost_factors t) \<and>
             cost_factors t ! j < 0 \<and>
             (\<forall>i<length (cost_factors t). cost_factors t ! i \<noteq> 0 \<longrightarrow>
                  cost_factors t ! j \<le> cost_factors t ! i) \<and>
             (\<forall>i<j. cost_factors t ! i \<noteq> cost_factors t ! j)"
proof -
  define cf where "cf = cost_factors t"
  define fwz where "fwz = map (\<lambda>v. if v \<noteq> 0 then Fin v else PInf) cf"
  from assms obtain k where k: "k < length cf" "cf ! k < 0"
    using not_optimal_negative unfolding cf_def by blast
  then have ne: "fwz \<noteq> []" by (auto simp: fwz_def)
  have fk: "fwz ! k = Fin (cf ! k)" "fwz ! k \<in> set fwz" using k by (auto simp: fwz_def)
  have "\<not> ext_less (fwz ! k) (py_min fwz)" using py_min_least fk(2) by blast
  then obtain m where m: "py_min fwz = Fin m" "m \<le> cf ! k"
    using fk(1) by (cases "py_min fwz") auto
  have mem: "Fin m \<in> set fwz" using py_min_mem [OF ne] by (simp only: m(1))
  obtain j where j: "index_of (Fin m) fwz = Some j"
    using index_of_mem [OF mem] by (elim exE)
  have jp: "j < length fwz" "fwz ! j = Fin m" "\<forall>i<j. fwz ! i \<noteq> Fin m"
    using j unfolding index_of_Some_iff by blast+
  have jl: "j < length cf" using jp(1) by (simp add: fwz_def)
  have cj: "cf ! j = m" "cf ! j \<noteq> 0"
    using jp(2) jl by (auto simp: fwz_def split: if_splits)
  have least: "cf ! j \<le> cf ! i" if "i < length cf" "cf ! i \<noteq> 0" for i
  proof -
    have "fwz ! i = Fin (cf ! i)" "fwz ! i \<in> set fwz" using that by (auto simp: fwz_def)
    then have "\<not> ext_less (Fin (cf ! i)) (Fin m)"
      using py_min_least [of "fwz ! i" fwz] m by simp
    then show ?thesis using cj by simp
  qed
  have first: "cf ! i \<noteq> cf ! j" if "i < j" for i
  proof
    assume eq: "cf ! i = cf ! j"
    have "i < length cf" using that jl by simp
    then have "fwz ! i = Fin m" using eq cj by (simp add: fwz_def)
    with jp(3) that show False by blast
  qed
  have "choose_entering_variable t = Inr j"
    using ne m j by (simp add: choose_entering_variable_def Let_def cf_def [symmetric] fwz_def [symmetric])
  moreover have "cf ! j < 0" using m k cj by simp
  ultimately show ?thesis using jl least first unfolding cf_def by blast
qed

theorem choose_entering_most_negative_witness:
  "\<not> is_optimal integer_01_tableaux \<and> choose_entering_variable integer_01_tableaux = Inr 1 \<and>
   cost_factors integer_01_tableaux ! 1 = - 8"
proof -
  have h: "\<not> is_optimal integer_01_tableaux" by code_simp
  have c: "cost_factors integer_01_tableaux = [- 5, - 8, 0, 0]" by code_simp
  from choose_entering_most_negative [OF h] obtain j where
    j: "choose_entering_variable integer_01_tableaux = Inr j"
       "j < length (cost_factors integer_01_tableaux)"
       "\<forall>i<length (cost_factors integer_01_tableaux). cost_factors integer_01_tableaux ! i \<noteq> 0 \<longrightarrow>
            cost_factors integer_01_tableaux ! j \<le> cost_factors integer_01_tableaux ! i"
    by blast
  from j(3) [rule_format, of 1]
  have "cost_factors integer_01_tableaux ! j \<le> cost_factors integer_01_tableaux ! 1"
    by (simp add: c)
  with j(2) have "j = 1" by (auto simp: c less_Suc_eq numeral_eq_Suc)
  with h j(1) c show ?thesis by simp
qed

section \<open>The store: solve writes to its own copies only\<close>

lemma extends_refl: "extends st st"
  by (simp add: extends_def)

lemma extends_trans:
  assumes "extends a b" "extends b c"
  shows "extends a c"
proof -
  from assms have l: "length a \<le> length b" "length b \<le> length c"
    and t: "take (length a) b = a" "take (length b) c = b"
    by (simp_all add: extends_def)
  have "take (length a) c = take (length a) (take (length b) c)"
    using l(1) by (simp add: min_absorb1)
  also have "\<dots> = a" by (simp only: t)
  finally show ?thesis using l by (simp add: extends_def)
qed

lemma extends_nth:
  assumes "extends st st'" "r < length st"
  shows "st' ! r = st ! r"
proof -
  have "st ! r = take (length st) st' ! r" using assms(1) by (simp add: extends_def)
  also have "\<dots> = st' ! r" using assms(2) by simp
  finally show ?thesis by simp
qed

lemma extends_deepcopy: "deepcopy st r = (r', st') \<Longrightarrow> extends st st' \<and> r' = length st \<and> length st' = Suc (length st)"
  by (auto simp: deepcopy_def extends_def)

lemma extends_in_place:
  "extends st st' \<Longrightarrow> length st \<le> r \<Longrightarrow> extends st (in_place st' r f)"
  by (simp add: extends_def in_place_def)

lemma length_in_place: "length (in_place st r f) = length st"
  by (simp add: in_place_def)

lemma extends_in_place_ret:
  "extends st st' \<Longrightarrow> length st \<le> r \<Longrightarrow> extends st (fst (in_place_ret st' r f))"
  by (simp add: extends_def in_place_ret_def split_beta)

lemma length_in_place_ret: "length (fst (in_place_ret st r f)) = length st"
  by (simp add: in_place_ret_def split_beta)

lemma normalize_model_extends:
  assumes "normalize_model st original_model = (st', model, sl, su)"
  shows "extends st st' \<and> model = length st \<and> length st' = Suc (length st)"
proof -
  obtain st1 where d: "deepcopy st original_model = (length st, st1)"
    by (simp add: deepcopy_def)
  from extends_deepcopy [OF d] have e1: "extends st st1" "length st1 = Suc (length st)" by simp_all
  let ?m = "length st"
  define st2 where "st2 = in_place st1 ?m change_objective_to_max"
  define st3 where "st3 = in_place st2 ?m change_constraints_bounds_to_nonnegative"
  define st4 where "st4 = fst (in_place_ret st3 ?m add_slack_variables)"
  define st5 where "st5 = fst (in_place_ret st4 ?m add_surplus_variables)"
  have e2: "extends st st2" unfolding st2_def using e1 by (simp add: extends_in_place)
  have e3: "extends st st3" unfolding st3_def using e2 by (simp add: extends_in_place)
  have e4: "extends st st4" unfolding st4_def using e3 by (simp add: extends_in_place_ret)
  have e5: "extends st st5" unfolding st5_def using e4 by (simp add: extends_in_place_ret)
  have l5: "length st5 = Suc (length st)"
    unfolding st5_def st4_def st3_def st2_def
    by (simp add: length_in_place_ret length_in_place e1)
  have "st' = st5 \<and> model = ?m"
    using assms d unfolding normalize_model_def st5_def st4_def st3_def st2_def
    by (auto simp: Let_def split_beta)
  with e5 l5 show ?thesis by simp
qed

lemma create_presolve_model_extends:
  assumes "create_presolve_model st m = (st', pm, art)"
  shows "extends st st' \<and> pm = length st"
proof -
  obtain st1 where d: "deepcopy st m = (length st, st1)"
    by (simp add: deepcopy_def)
  from extends_deepcopy [OF d] have e1: "extends st st1" by simp
  have "st' = fst (in_place_ret st1 (length st) add_artificial_variables) \<and> pm = length st"
    using assms d unfolding create_presolve_model_def
    by (auto simp: Let_def split_beta)
  with e1 show ?thesis by (simp add: extends_in_place_ret)
qed

lemma prepare_first_phase_objective_extends:
  assumes "prepare_first_phase_objective st m art = (st', m')"
  shows "extends st st'"
proof -
  obtain st1 where d: "deepcopy st m = (length st, st1)"
    by (simp add: deepcopy_def)
  from extends_deepcopy [OF d] have e1: "extends st st1" by simp
  have "\<exists>f. st' = in_place st1 (length st) f"
    using assms d unfolding prepare_first_phase_objective_def
    by (auto simp: Let_def split_beta)
  with e1 show ?thesis by (auto simp: extends_in_place)
qed

lemma presolve_initial_tableaux_extends:
  assumes "presolve_initial_tableaux st m art = (st', t)"
  shows "extends st st'"
proof -
  obtain st1 m1 where p: "prepare_first_phase_objective st m art = (st1, m1)"
    by (cases "prepare_first_phase_objective st m art") auto
  have "st' = st1" using assms p unfolding presolve_initial_tableaux_def by (simp add: Let_def)
  with prepare_first_phase_objective_extends [OF p] show ?thesis by simp
qed

lemma presolve_extends:
  assumes "presolve st m = (st', r)"
  shows "extends st st'"
proof -
  obtain st1 pm art where c: "create_presolve_model st m = (st1, pm, art)"
    by (cases "create_presolve_model st m") auto
  obtain st2 t where p: "presolve_initial_tableaux st1 pm art = (st2, t)"
    by (cases "presolve_initial_tableaux st1 pm art") auto
  have "st' = st2" using assms c p unfolding presolve_def by (simp add: Let_def)
  with create_presolve_model_extends [OF c] presolve_initial_tableaux_extends [OF p]
  show ?thesis using extends_trans by blast
qed

lemma solve_extends: "extends st (fst (solve st model))"
proof -
  obtain st1 nm sl su where n: "normalize_model st model = (st1, nm, sl, su)"
    by (cases "normalize_model st model") auto
  from normalize_model_extends [OF n] have e1: "extends st st1" by simp
  show ?thesis
  proof (cases "length sl < length (constraints (st1 ! nm))")
    case True
    obtain st2 r where p: "presolve st1 nm = (st2, r)" by (cases "presolve st1 nm") auto
    have "fst (solve st model) = st2"
      using n True p unfolding solve_def by (simp add: Let_def)
    with presolve_extends [OF p] e1 show ?thesis using extends_trans by blast
  next
    case False
    have "fst (solve st model) = st1"
      using n False unfolding solve_def by (simp add: Let_def)
    with e1 show ?thesis by simp
  qed
qed

lemma lab03_solve_extends: "extends st (fst (lab03_solve st model))"
proof -
  obtain st1 where d: "deepcopy st model = (length st, st1)"
    by (simp add: deepcopy_def)
  from extends_deepcopy [OF d] have e1: "extends st st1" by simp
  have "fst (lab03_solve st model) = fst (in_place_ret st1 (length st) lab03_normalize_model)"
    using d unfolding lab03_solve_def by (simp add: Let_def split_beta)
  with e1 show ?thesis by (simp add: extends_in_place_ret)
qed

text \<open>
  C10. Both solvers leave every model object that existed before the call as it was, the
  caller's model among them: its variables, constraints and objective after \<open>solve\<close>
  are those before, whether the call returns, raises or does not end. All they write
  to are the deep copies they allocate.
\<close>

theorem solve_never_mutates_model:
  assumes "model < length st"
  shows "fst (solve st model) ! model = st ! model \<and>
         fst (lab03_solve st model) ! model = st ! model \<and>
         take (length st) (fst (solve st model)) = st \<and>
         take (length st) (fst (lab03_solve st model)) = st"
proof -
  note e = solve_extends [of st model] lab03_solve_extends [of st model]
  from e have "take (length st) (fst (solve st model)) = st"
    "take (length st) (fst (lab03_solve st model)) = st"
    by (simp_all add: extends_def)
  moreover from e assms have "fst (solve st model) ! model = st ! model"
    "fst (lab03_solve st model) ! model = st ! model"
    by (simp_all add: extends_nth)
  ultimately show ?thesis by simp
qed

theorem solve_never_mutates_model_witness:
  "(0::nat) < length [integer_01_solvable] \<and>
   fst (solve [integer_01_solvable] 0) ! 0 = integer_01_solvable \<and>
   fst (lab03_solve [integer_01_solvable] 0) ! 0 = integer_01_solvable"
proof -
  have h: "(0::nat) < length [integer_01_solvable]" by simp
  from solve_never_mutates_model [OF h] h show ?thesis by simp
qed

section \<open>The solution returned by solve\<close>

lemma bind_res_Inr:
  "bind_res x f = Some (Inr v) \<Longrightarrow> \<exists>a. x = Some (Inr a) \<and> f a = Some (Inr v)"
  by (cases x) (auto simp: bind_res_def split: sum.splits)

lemma solve_snd:
  "snd (solve st model) =
     bind_res (snd (if length (fst (snd (snd (normalize_model st model))))
                       < length (constraints (fst (normalize_model st model) ! fst (snd (normalize_model st model))))
                    then presolve (fst (normalize_model st model)) (fst (snd (normalize_model st model)))
                    else (fst (normalize_model st model),
                          Some (Inr (basic_initial_tableaux
                             (fst (normalize_model st model) ! fst (snd (normalize_model st model))))))))
       (\<lambda>t0. bind_res (optimize t0) (\<lambda>t.
          bind_res (Some (extract_solution t)) (\<lambda>sol.
            Some (translate_to_original_model sol (fst (solve st model)) model))))"
  by (simp add: solve_def Let_def split_beta)

lemma translate_Inr:
  "translate_to_original_model sol st model = Inr s \<Longrightarrow>
     sol_model s = model \<and> length (assignment s) = length (variables (st ! model))"
  by (auto simp: translate_to_original_model_def Let_def split: if_splits)

text \<open>
  C3, for the two-phase solver of lab04. When \<open>solve\<close> returns a solution, the solution
  is bound to the caller's model, which is as it was before the call; the assignment has
  one value for each variable of that model; and \<open>objective_value\<close> is the caller's
  objective expression, in the caller's own direction, evaluated at the assignment.
\<close>

theorem solve_solution_original_model:
  assumes "model < length st" and "snd (solve st model) = Some (Inr s)"
  shows "sol_model s = model \<and>
         fst (solve st model) ! sol_model s = st ! model \<and>
         length (assignment s) = length (variables (st ! model)) \<and>
         objective_value (fst (solve st model)) s =
           evaluate (o_expression (objective (st ! model))) (assignment s)"
proof -
  let ?st' = "fst (solve st model)"
  have same: "?st' ! model = st ! model"
    using solve_extends [of st model] assms(1) by (rule extends_nth)
  from assms(2) obtain t0 where
    "bind_res (optimize t0) (\<lambda>t. bind_res (Some (extract_solution t)) (\<lambda>sol.
        Some (translate_to_original_model sol ?st' model))) = Some (Inr s)"
    unfolding solve_snd using bind_res_Inr by fastforce
  then obtain t where
    "bind_res (Some (extract_solution t)) (\<lambda>sol.
        Some (translate_to_original_model sol ?st' model)) = Some (Inr s)"
    using bind_res_Inr by fastforce
  then obtain sol where "Some (translate_to_original_model sol ?st' model) = Some (Inr s)"
    using bind_res_Inr by fastforce
  then have tr: "translate_to_original_model sol ?st' model = Inr s" by simp
  from translate_Inr [OF tr] same show ?thesis
    by (simp add: objective_value_def)
qed

theorem solve_solution_original_model_witness:
  "(0::nat) < length [integer_01_solvable] \<and>
   snd (solve [integer_01_solvable] 0) = Some (Inr \<lparr>sol_model = 0, assignment = [9 / 4, 15 / 4]\<rparr>) \<and>
   fst (solve [integer_01_solvable] 0) ! 0 = integer_01_solvable \<and>
   objective_value (fst (solve [integer_01_solvable] 0)) \<lparr>sol_model = 0, assignment = [9 / 4, 15 / 4]\<rparr> =
     evaluate (o_expression (objective integer_01_solvable)) [9 / 4, 15 / 4]"
proof -
  have h1: "(0::nat) < length [integer_01_solvable]" by simp
  have h2: "snd (solve [integer_01_solvable] 0) =
      Some (Inr \<lparr>sol_model = 0, assignment = [9 / 4, 15 / 4]\<rparr>)"
    by code_simp
  from solve_solution_original_model [OF h1 h2] h1 h2 show ?thesis by simp
qed

text \<open>
  The one-phase solver of lab03 is different: on the model of integer\_01\_solvable.py,
  at reference 0, it returns a solution bound to the normalised copy at reference 1, with
  the values of the two slack variables after those of the two variables of the model.
\<close>

theorem lab03_solution_of_normalised_copy:
  "snd (lab03_solve [integer_01_solvable] 0) =
     Some (Inr \<lparr>sol_model = 1, assignment = [9 / 4, 15 / 4, 0, 0]\<rparr>) \<and>
   length (variables integer_01_solvable) = 2"
  by code_simp

section \<open>The decision between one and two phases\<close>

lemma update_fresh: "k \<notin> fst ` set al \<Longrightarrow> AList.update k v al = al @ [(k, v)]"
  by (induction al) auto

lemma map_c_type_update:
  assumes "c_type c = c_type (cs ! i)"
  shows "map c_type (cs[i := c]) = map c_type cs"
proof (cases "i < length cs")
  case True
  then show ?thesis using assms by (simp add: map_update list_update_same_conv)
next
  case False
  then have "length cs \<le> i" by simp
  then show ?thesis by (simp add: list_update_beyond)
qed

lemma add_variable_to_constraint_eq:
  assumes "\<forall>x\<in>set d. fst x < length (variables m)"
  shows "add_variable_to_constraint p f i (m, d) =
     (m\<lparr>variables := variables m @ [p @ show_nat i],
        constraints := (constraints m)[i := (constraints m ! i)
            \<lparr>c_expression := c_expression (constraints m ! i) @ [(length (variables m), f)]\<rparr>]\<rparr>,
      d @ [(length (variables m), i)])"
proof -
  have fresh: "length (variables m) \<notin> fst ` set d" using assms by auto
  show ?thesis
    by (simp add: add_variable_to_constraint_def create_variable_def Let_def
        update_fresh [OF fresh])
qed

lemma add_loop:
  assumes "k \<le> length (constraints m0)"
  shows "\<exists>m d. fold (\<lambda>i (m, d). if Q (c_type (constraints m ! i))
                               then add_variable_to_constraint p f i (m, d) else (m, d))
                     [0..<k] (m0, []) = (m, d) \<and>
           map c_type (constraints m) = map c_type (constraints m0) \<and>
           length d = length (filter Q (map c_type (take k (constraints m0)))) \<and>
           length (variables m) = length (variables m0) + length d \<and>
           (\<forall>x\<in>set d. fst x < length (variables m)) \<and>
           objective m = objective m0"
  using assms
proof (induction k)
  case 0
  then show ?case by simp
next
  case (Suc k)
  let ?g = "\<lambda>i (m, d). if Q (c_type (constraints m ! i))
                          then add_variable_to_constraint p f i (m, d) else (m, d)"
  from Suc obtain m d where ih1: "fold ?g [0..<k] (m0, []) = (m, d)"
      and ih2: "map c_type (constraints m) = map c_type (constraints m0)"
      and ih3: "length d = length (filter Q (map c_type (take k (constraints m0))))"
      and ih4: "length (variables m) = length (variables m0) + length d"
      and ih5: "\<forall>x\<in>set d. fst x < length (variables m)"
      and ih6: "objective m = objective m0"
    by auto
  have k: "k < length (constraints m0)" using Suc.prems by simp
  have "length (map c_type (constraints m)) = length (map c_type (constraints m0))"
    by (simp only: ih2)
  then have len: "length (constraints m) = length (constraints m0)" by simp
  have "map c_type (constraints m) ! k = map c_type (constraints m0) ! k"
    by (simp only: ih2)
  then have ty: "c_type (constraints m ! k) = c_type (constraints m0 ! k)"
    using k len by simp
  have tk: "map c_type (take (Suc k) (constraints m0)) =
            map c_type (take k (constraints m0)) @ [c_type (constraints m0 ! k)]"
    using k by (simp add: take_Suc_conv_app_nth)
  have run: "fold ?g [0..<Suc k] (m0, []) = ?g k (m, d)"
    using ih1 by simp
  show ?case
  proof (cases "Q (c_type (constraints m0 ! k))")
    case True
    define m' where "m' = m\<lparr>variables := variables m @ [p @ show_nat k],
        constraints := (constraints m)[k := (constraints m ! k)
            \<lparr>c_expression := c_expression (constraints m ! k) @ [(length (variables m), f)]\<rparr>]\<rparr>"
    define d' where "d' = d @ [(length (variables m), k)]"
    have r: "fold ?g [0..<Suc k] (m0, []) = (m', d')"
      using run True ty add_variable_to_constraint_eq [OF ih5, of p f k]
      by (simp add: m'_def d'_def)
    have c1: "map c_type (constraints m') = map c_type (constraints m0)"
      by (simp add: m'_def map_c_type_update ih2)
    have c2: "length d' = length (filter Q (map c_type (take (Suc k) (constraints m0))))"
      using True by (simp add: d'_def tk ih3)
    have c3: "length (variables m') = length (variables m0) + length d'"
      by (simp add: m'_def d'_def ih4)
    have c4: "\<forall>x\<in>set d'. fst x < length (variables m')"
      using ih5 by (auto simp: m'_def d'_def less_Suc_eq)
    have c5: "objective m' = objective m0"
      by (simp add: m'_def ih6)
    from r c1 c2 c3 c4 c5 show ?thesis by blast
  next
    case False
    have r: "fold ?g [0..<Suc k] (m0, []) = (m, d)"
      using run False ty by simp
    have c2: "length d = length (filter Q (map c_type (take (Suc k) (constraints m0))))"
      using False by (simp add: tk ih3)
    from r ih2 c2 ih4 ih5 ih6 show ?thesis by blast
  qed
qed


lemma add_slack_variables_props:
  assumes "add_slack_variables m = (m', d)"
  shows "map c_type (constraints m') = map c_type (constraints m)"
    and "length d = length (filter (\<lambda>t. t = LE) (map c_type (constraints m)))"
  using add_loop [of "length (constraints m)" m "\<lambda>t. t = LE" "''s''" 1] assms
  by (auto simp: add_slack_variables_def)

lemma add_surplus_variables_props:
  assumes "add_surplus_variables m = (m', d)"
  shows "map c_type (constraints m') = map c_type (constraints m)"
  using add_loop [of "length (constraints m)" m "\<lambda>t. t = GE" "''s''" "- 1"] assms
  by (auto simp: add_surplus_variables_def)

lemma normalize_model_value:
  assumes "normalize_model st r = (st', nm, sl, su)"
  shows "\<exists>m4 m5. add_slack_variables
                    (change_constraints_bounds_to_nonnegative (change_objective_to_max (st ! r))) = (m4, sl) \<and>
                 add_surplus_variables m4 = (m5, su) \<and> st' ! nm = m5"
proof -
  let ?m3 = "change_constraints_bounds_to_nonnegative (change_objective_to_max (st ! r))"
  obtain m4 sl' where a: "add_slack_variables ?m3 = (m4, sl')"
    by (cases "add_slack_variables ?m3") auto
  obtain m5 su' where b: "add_surplus_variables m4 = (m5, su')"
    by (cases "add_surplus_variables m4") auto
  have "normalize_model st r =
         ((st @ [st ! r])[length st := m5], length st, sl', su')"
    using a b
    by (simp add: normalize_model_def deepcopy_def in_place_def in_place_ret_def Let_def)
  with assms have "st' = st @ [m5]" "nm = length st" "sl = sl'" "su = su'"
    by auto
  then show ?thesis using a b by simp
qed

lemma filter_shorter_iff:
  "(length (filter P xs) < length xs) = list_ex (\<lambda>x. \<not> P x) xs"
proof -
  have "length (filter P xs) + length (filter (\<lambda>x. \<not> P x) xs) = length xs"
    by (rule sum_length_filter_compl)
  moreover have "(filter (\<lambda>x. \<not> P x) xs \<noteq> []) = list_ex (\<lambda>x. \<not> P x) xs"
    by (simp add: filter_empty_conv list_ex_iff)
  ultimately show ?thesis
    by (cases "filter (\<lambda>x. \<not> P x) xs") auto
qed

lemma normalize_model_slack_count:
  assumes "normalize_model st model = (st1, nm, sl, su)"
  shows "length sl = length (filter (\<lambda>c. c_type c = LE) (constraints (st1 ! nm)))"
proof -
  from normalize_model_value [OF assms] obtain m4 m5 where
    a: "add_slack_variables
          (change_constraints_bounds_to_nonnegative (change_objective_to_max (st ! model))) = (m4, sl)"
    and b: "add_surplus_variables m4 = (m5, su)" and c: "st1 ! nm = m5"
    by blast
  have "map c_type (constraints m5) =
        map c_type (constraints (change_constraints_bounds_to_nonnegative
                                   (change_objective_to_max (st ! model))))"
    using add_slack_variables_props(1) [OF a] add_surplus_variables_props [OF b] by simp
  then have "length sl = length (filter (\<lambda>t. t = LE) (map c_type (constraints m5)))"
    using add_slack_variables_props(2) [OF a] by simp
  then show ?thesis by (simp add: c filter_map comp_def)
qed

lemma solve_unfold:
  assumes "normalize_model st model = (st1, nm, sl, su)"
  shows "solve st model =
     (if length sl < length (constraints (st1 ! nm))
      then (fst (presolve st1 nm),
            solve_from_tableaux (fst (presolve st1 nm)) model (snd (presolve st1 nm)))
      else (st1, solve_from_tableaux st1 model (Some (Inr (basic_initial_tableaux (st1 ! nm))))))"
  using assms by (simp add: solve_def solve_from_tableaux_def Let_def split_beta)

lemma add_loop_none:
  assumes "k \<le> length (constraints m0)" "\<forall>i<k. \<not> Q (c_type (constraints m0 ! i))"
  shows "fold (\<lambda>i (m, d). if Q (c_type (constraints m ! i))
                           then add_variable_to_constraint p f i (m, d) else (m, d))
              [0..<k] (m0, []) = (m0, [])"
  using assms by (induction k) simp_all

lemma add_loop_all:
  assumes "k \<le> length (constraints m0)" "\<forall>i<k. Q (c_type (constraints m0 ! i))"
  shows "fold (\<lambda>i (m, d). if Q (c_type (constraints m ! i))
                           then add_variable_to_constraint p f i (m, d) else (m, d))
              [0..<k] (m0, []) =
         (m0\<lparr>variables := variables m0 @ map (\<lambda>i. p @ show_nat i) [0..<k],
             constraints := map (\<lambda>i. if i < k
                  then (constraints m0 ! i)\<lparr>c_expression :=
                         c_expression (constraints m0 ! i) @ [(length (variables m0) + i, f)]\<rparr>
                  else constraints m0 ! i) [0..<length (constraints m0)]\<rparr>,
          map (\<lambda>i. (length (variables m0) + i, i)) [0..<k])"
  using assms
proof (induction k)
  case 0
  then show ?case by (simp add: map_nth)
next
  case (Suc k)
  let ?g = "\<lambda>i (m, d). if Q (c_type (constraints m ! i))
                          then add_variable_to_constraint p f i (m, d) else (m, d)"
  let ?n0 = "length (variables m0)"
  let ?cs = "constraints m0"
  define mk where "mk = m0\<lparr>variables := variables m0 @ map (\<lambda>i. p @ show_nat i) [0..<k],
             constraints := map (\<lambda>i. if i < k
                  then (?cs ! i)\<lparr>c_expression := c_expression (?cs ! i) @ [(?n0 + i, f)]\<rparr>
                  else ?cs ! i) [0..<length ?cs]\<rparr>"
  define dk where "dk = map (\<lambda>i. (?n0 + i, i)) [0..<k]"
  have k: "k < length ?cs" using Suc.prems by simp
  have ih: "fold ?g [0..<k] (m0, []) = (mk, dk)"
    unfolding mk_def dk_def using Suc by simp
  have ck: "constraints mk ! k = ?cs ! k" using k by (simp add: mk_def)
  have q: "Q (c_type (constraints mk ! k))" using Suc.prems ck by simp
  have lv: "length (variables mk) = ?n0 + k" by (simp add: mk_def)
  have keys: "\<forall>x\<in>set dk. fst x < length (variables mk)"
    by (auto simp: dk_def lv)
  have run: "fold ?g [0..<Suc k] (m0, []) = add_variable_to_constraint p f k (mk, dk)"
    using ih q by simp
  have cs: "(constraints mk)[k := (constraints mk ! k)
                \<lparr>c_expression := c_expression (constraints mk ! k) @ [(?n0 + k, f)]\<rparr>] =
            map (\<lambda>i. if i < Suc k
                  then (?cs ! i)\<lparr>c_expression := c_expression (?cs ! i) @ [(?n0 + i, f)]\<rparr>
                  else ?cs ! i) [0..<length ?cs]"
  proof (rule nth_equalityI)
    show "length ((constraints mk)[k := (constraints mk ! k)
                \<lparr>c_expression := c_expression (constraints mk ! k) @ [(?n0 + k, f)]\<rparr>]) =
          length (map (\<lambda>i. if i < Suc k
                  then (?cs ! i)\<lparr>c_expression := c_expression (?cs ! i) @ [(?n0 + i, f)]\<rparr>
                  else ?cs ! i) [0..<length ?cs])"
      by (simp add: mk_def)
  next
    fix i
    assume "i < length ((constraints mk)[k := (constraints mk ! k)
                \<lparr>c_expression := c_expression (constraints mk ! k) @ [(?n0 + k, f)]\<rparr>])"
    then have i: "i < length ?cs" by (simp add: mk_def)
    show "(constraints mk)[k := (constraints mk ! k)
                \<lparr>c_expression := c_expression (constraints mk ! k) @ [(?n0 + k, f)]\<rparr>] ! i =
          map (\<lambda>i. if i < Suc k
                  then (?cs ! i)\<lparr>c_expression := c_expression (?cs ! i) @ [(?n0 + i, f)]\<rparr>
                  else ?cs ! i) [0..<length ?cs] ! i"
    proof (cases "i = k")
      case True
      then show ?thesis using k ck by (simp add: mk_def)
    next
      case False
      then show ?thesis using i by (auto simp: mk_def nth_list_update less_Suc_eq)
    qed
  qed
  show ?case
    unfolding run add_variable_to_constraint_eq [OF keys] lv cs
    by (simp add: mk_def dk_def)
qed


lemma scale_vars: "list_all (\<lambda>(var, factor). var < n) (scale k e) = list_all (\<lambda>(var, factor). var < n) e"
  by (induction e) (auto simp: scale_def)

lemma scale_set: "(a, b) \<in> set (scale k e) \<Longrightarrow> \<exists>b'. (a, b') \<in> set e"
  by (induction e) (auto simp: scale_def)

lemma well_formed_bounds_max:
  assumes "well_formed m"
  shows "well_formed (change_constraints_bounds_to_nonnegative (change_objective_to_max m))"
    and "variables (change_constraints_bounds_to_nonnegative (change_objective_to_max m)) = variables m"
proof -
  have v: "variables (change_constraints_bounds_to_nonnegative (change_objective_to_max m)) = variables m"
    by (simp add: change_constraints_bounds_to_nonnegative_def change_objective_to_max_def)
  have o: "list_all (\<lambda>(var, factor). var < length (variables m))
             (o_expression (objective (change_constraints_bounds_to_nonnegative (change_objective_to_max m))))"
    using assms
    by (simp add: change_constraints_bounds_to_nonnegative_def change_objective_to_max_def
        invert_objective_def scale_vars well_formed_def)
  have c: "list_all (\<lambda>c. list_all (\<lambda>(var, factor). var < length (variables m)) (c_expression c))
             (constraints (change_constraints_bounds_to_nonnegative (change_objective_to_max m)))"
    using assms
    by (fastforce simp: change_constraints_bounds_to_nonnegative_def change_objective_to_max_def
        invert_constraint_def well_formed_def list_all_iff dest: scale_set)
  show "well_formed (change_constraints_bounds_to_nonnegative (change_objective_to_max m))"
    unfolding well_formed_def v using o c by simp
  show "variables (change_constraints_bounds_to_nonnegative (change_objective_to_max m)) = variables m"
    by (rule v)
qed

lemma factors_nth:
  "i < length (variables m) \<Longrightarrow>
   factors m e ! i = sum_list (map snd (filter (\<lambda>(var, factor). var = i) e))"
  by (simp add: factors_def)

lemma length_factors: "length (factors m e) = length (variables m)"
  by (simp add: factors_def)

lemma filter_absent:
  assumes "list_all (\<lambda>(var, factor). var < n) e" and "n \<le> (i::nat)"
  shows "filter (\<lambda>(var, factor). var = i) e = []"
  using assms(1)
proof (induction e)
  case Nil
  show ?case by simp
next
  case (Cons a e)
  obtain v f where a: "a = (v, f)" by (cases a)
  from Cons.prems have "v < n" and "list_all (\<lambda>(var, factor). var < n) e"
    by (simp_all add: a)
  with Cons.IH assms(2) show ?case by (simp add: a)
qed

lemma slack_column:
  assumes wf: "well_formed m3"
    and m4: "m4 = m3\<lparr>variables := variables m3 @ map (\<lambda>i. p @ show_nat i) [0..<length (constraints m3)],
             constraints := map (\<lambda>i. if i < length (constraints m3)
                  then (constraints m3 ! i)\<lparr>c_expression :=
                         c_expression (constraints m3 ! i) @ [(length (variables m3) + i, 1)]\<rparr>
                  else constraints m3 ! i) [0..<length (constraints m3)]\<rparr>"
    and j: "j < length (constraints m3)"
  shows "column (basic_initial_tableaux m4) (length (variables m3) + j) =
           (replicate (Suc (length (constraints m3))) 0)[Suc j := 1]"
proof (rule nth_equalityI)
  let ?n0 = "length (variables m3)"
  let ?k = "length (constraints m3)"
  let ?t = "basic_initial_tableaux m4"
  have lt: "length ?t = Suc ?k"
    by (simp add: basic_initial_tableaux_def m4)
  show "length (column ?t (?n0 + j)) = length ((replicate (Suc ?k) (0::rat))[Suc j := 1])"
    by (simp add: column_def lt)
  have lv: "length (variables m4) = ?n0 + ?k" by (simp add: m4)
  have inr: "?n0 + j < length (variables m4)" using j lv by simp
  fix r
  assume "r < length (column ?t (?n0 + j))"
  then have r: "r < Suc ?k" by (simp add: column_def lt)
  show "column ?t (?n0 + j) ! r = (replicate (Suc ?k) (0::rat))[Suc j := 1] ! r"
  proof (cases r)
    case 0
    have "list_all (\<lambda>(var, factor). var < ?n0) (scale (- 1) (o_expression (objective m4)))"
      using wf by (simp add: scale_vars well_formed_def m4)
    then have "filter (\<lambda>(var, factor). var = ?n0 + j) (scale (- 1) (o_expression (objective m4))) = []"
      by (rule filter_absent) simp
    then have "factors m4 (scale (- 1) (o_expression (objective m4))) ! (?n0 + j) = 0"
      using inr by (simp add: factors_nth)
    then have "?t ! 0 ! (?n0 + j) = 0"
      using inr by (simp add: basic_initial_tableaux_def nth_append length_factors)
    then show ?thesis using 0 lt by (simp add: column_def)
  next
    case (Suc i)
    then have i: "i < ?k" using r by simp
    have ci: "constraints m4 ! i = (constraints m3 ! i)\<lparr>c_expression :=
                 c_expression (constraints m3 ! i) @ [(?n0 + i, 1)]\<rparr>"
      using i by (simp add: m4)
    have "list_all (\<lambda>(var, factor). var < ?n0) (c_expression (constraints m3 ! i))"
      using wf i by (simp add: well_formed_def list_all_length)
    then have "filter (\<lambda>(var, factor). var = ?n0 + j) (c_expression (constraints m3 ! i)) = []"
      by (rule filter_absent) simp
    then have "factors m4 (c_expression (constraints m4 ! i)) ! (?n0 + j) = (if i = j then 1 else 0)"
      using inr by (simp add: factors_nth ci)
    moreover have "?t ! Suc i = factors m4 (c_expression (constraints m4 ! i)) @ [bound (constraints m4 ! i)]"
      using i by (simp add: basic_initial_tableaux_def m4)
    ultimately have "?t ! Suc i ! (?n0 + j) = (if i = j then 1 else 0)"
      using inr by (simp add: nth_append length_factors)
    then show ?thesis using Suc r lt by (simp add: column_def nth_list_update)
  qed
qed


lemma normalize_model_all_le:
  assumes n: "normalize_model st model = (st1, nm, sl, su)"
    and le: "\<not> list_ex (\<lambda>c. c_type c = GE \<or> c_type c = EQ) (constraints (st1 ! nm))"
    and wf: "well_formed (st ! model)"
  shows "length (constraints (st1 ! nm)) = length (constraints (st ! model))"
    and "sl = map (\<lambda>i. (length (variables (st ! model)) + i, i))
                 [0..<length (constraints (st ! model))]"
    and "su = []"
    and "\<forall>j<length (constraints (st ! model)).
           column (basic_initial_tableaux (st1 ! nm)) (length (variables (st ! model)) + j) =
           (replicate (Suc (length (constraints (st ! model)))) 0)[Suc j := 1]"
proof -
  define m3 where "m3 = change_constraints_bounds_to_nonnegative (change_objective_to_max (st ! model))"
  let ?k = "length (constraints m3)"
  from normalize_model_value [OF n] obtain m4 m5 where
    a: "add_slack_variables m3 = (m4, sl)"
    and b: "add_surplus_variables m4 = (m5, su)" and c: "st1 ! nm = m5"
    unfolding m3_def by blast
  have wf3: "well_formed m3" unfolding m3_def by (rule well_formed_bounds_max(1) [OF wf])
  have v3: "variables m3 = variables (st ! model)"
    unfolding m3_def by (rule well_formed_bounds_max(2) [OF wf])
  have k3: "?k = length (constraints (st ! model))"
    by (simp add: m3_def change_constraints_bounds_to_nonnegative_def change_objective_to_max_def)
  have t4: "map c_type (constraints m4) = map c_type (constraints m3)"
    by (rule add_slack_variables_props(1) [OF a])
  have t5: "map c_type (constraints m5) = map c_type (constraints m4)"
    by (rule add_surplus_variables_props [OF b])
  have "length (map c_type (constraints m4)) = length (map c_type (constraints m3))"
    by (simp only: t4)
  then have l4: "length (constraints m4) = ?k" by simp
  have "length (map c_type (constraints m5)) = length (map c_type (constraints m4))"
    by (simp only: t5)
  then have l5: "length (constraints m5) = ?k" using l4 by simp
  have ty5: "c_type (constraints m5 ! i) = LE" if "i < ?k" for i
  proof -
    have "constraints m5 ! i \<in> set (constraints m5)" using that l5 by simp
    then have "\<not> (c_type (constraints m5 ! i) = GE \<or> c_type (constraints m5 ! i) = EQ)"
      using le unfolding c list_ex_iff by blast
    then show ?thesis by (cases "c_type (constraints m5 ! i)") simp_all
  qed
  have ty4: "c_type (constraints m4 ! i) = LE" if "i < ?k" for i
  proof -
    have "map c_type (constraints m5) ! i = map c_type (constraints m4) ! i"
      by (simp only: t5)
    then show ?thesis using that l4 l5 ty5 [OF that] by simp
  qed
  have ty3: "c_type (constraints m3 ! i) = LE" if "i < ?k" for i
  proof -
    have "map c_type (constraints m4) ! i = map c_type (constraints m3) ! i"
      by (simp only: t4)
    then show ?thesis using that l4 ty4 [OF that] by simp
  qed
  have all3: "\<forall>i<?k. (\<lambda>t. t = LE) (c_type (constraints m3 ! i))" using ty3 by simp
  have e4: "add_slack_variables m3 =
         (m3\<lparr>variables := variables m3 @ map (\<lambda>i. ''s'' @ show_nat i) [0..<?k],
             constraints := map (\<lambda>i. if i < ?k
                  then (constraints m3 ! i)\<lparr>c_expression :=
                         c_expression (constraints m3 ! i) @ [(length (variables m3) + i, 1)]\<rparr>
                  else constraints m3 ! i) [0..<?k]\<rparr>,
          map (\<lambda>i. (length (variables m3) + i, i)) [0..<?k])"
    unfolding add_slack_variables_def
    by (rule add_loop_all [OF le_refl all3])
  from a e4 have m4: "m4 = m3\<lparr>variables := variables m3 @ map (\<lambda>i. ''s'' @ show_nat i) [0..<?k],
             constraints := map (\<lambda>i. if i < ?k
                  then (constraints m3 ! i)\<lparr>c_expression :=
                         c_expression (constraints m3 ! i) @ [(length (variables m3) + i, 1)]\<rparr>
                  else constraints m3 ! i) [0..<?k]\<rparr>"
    and sl: "sl = map (\<lambda>i. (length (variables m3) + i, i)) [0..<?k]"
    by simp_all
  have none4: "\<forall>i<length (constraints m4). \<not> (\<lambda>t. t = GE) (c_type (constraints m4 ! i))"
    using ty4 l4 by simp
  have e5: "add_surplus_variables m4 = (m4, [])"
    unfolding add_surplus_variables_def
    by (rule add_loop_none [OF le_refl none4])
  from b e5 have m5: "m5 = m4" and su: "su = []" by simp_all
  show "length (constraints (st1 ! nm)) = length (constraints (st ! model))"
    using l5 k3 c by simp
  show "sl = map (\<lambda>i. (length (variables (st ! model)) + i, i))
                 [0..<length (constraints (st ! model))]"
    using sl v3 k3 by simp
  show "su = []" by (rule su)
  show "\<forall>j<length (constraints (st ! model)).
           column (basic_initial_tableaux (st1 ! nm)) (length (variables (st ! model)) + j) =
           (replicate (Suc (length (constraints (st ! model)))) 0)[Suc j := 1]"
  proof (intro allI impI)
    fix j assume "j < length (constraints (st ! model))"
    then have j: "j < ?k" using k3 by simp
    have "column (basic_initial_tableaux m4) (length (variables m3) + j) =
           (replicate (Suc ?k) 0)[Suc j := 1]"
      by (rule slack_column [OF wf3 m4 j])
    then show "column (basic_initial_tableaux (st1 ! nm)) (length (variables (st ! model)) + j) =
           (replicate (Suc (length (constraints (st ! model)))) 0)[Suc j := 1]"
      unfolding c m5 v3 k3 .
  qed
qed

lemma add_loop_explicit:
  assumes "k \<le> length (constraints m0)"
  shows "fold (\<lambda>i (m, d). if Q (c_type (constraints m ! i))
                           then add_variable_to_constraint p f i (m, d) else (m, d))
              [0..<k] (m0, []) =
         (m0\<lparr>variables := variables m0 @
                  map (\<lambda>i. p @ show_nat i)
                      (filter (\<lambda>i. Q (c_type (constraints m0 ! i))) [0..<k]),
             constraints := map (\<lambda>i. if i < k \<and> Q (c_type (constraints m0 ! i))
                  then (constraints m0 ! i)\<lparr>c_expression :=
                         c_expression (constraints m0 ! i) @
                           [(length (variables m0) +
                             length (filter (\<lambda>i. Q (c_type (constraints m0 ! i))) [0..<i]), f)]\<rparr>
                  else constraints m0 ! i) [0..<length (constraints m0)]\<rparr>,
          map (\<lambda>i. (length (variables m0) +
                     length (filter (\<lambda>i. Q (c_type (constraints m0 ! i))) [0..<i]), i))
              (filter (\<lambda>i. Q (c_type (constraints m0 ! i))) [0..<k]))"
  using assms
proof (induction k)
  case 0
  then show ?case by (simp add: map_nth)
next
  case (Suc k)
  let ?g = "\<lambda>i (m, d). if Q (c_type (constraints m ! i))
                          then add_variable_to_constraint p f i (m, d) else (m, d)"
  let ?n0 = "length (variables m0)"
  let ?cs = "constraints m0"
  let ?P = "\<lambda>i. Q (c_type (?cs ! i))"
  let ?v = "\<lambda>i. ?n0 + length (filter ?P [0..<i])"
  define mk where "mk = m0\<lparr>variables := variables m0 @ map (\<lambda>i. p @ show_nat i) (filter ?P [0..<k]),
             constraints := map (\<lambda>i. if i < k \<and> ?P i
                  then (?cs ! i)\<lparr>c_expression := c_expression (?cs ! i) @ [(?v i, f)]\<rparr>
                  else ?cs ! i) [0..<length ?cs]\<rparr>"
  define dk where "dk = map (\<lambda>i. (?v i, i)) (filter ?P [0..<k])"
  have k: "k < length ?cs" using Suc.prems by simp
  have ih: "fold ?g [0..<k] (m0, []) = (mk, dk)"
    unfolding mk_def dk_def using Suc by simp
  have ck: "constraints mk ! k = ?cs ! k" using k by (simp add: mk_def)
  have lv: "length (variables mk) = ?v k" by (simp add: mk_def)
  have mono: "length (filter ?P [0..<i]) < length (filter ?P [0..<k])" if "i < k" "?P i" for i
  proof -
    have "[0..<k] = [0..<Suc i] @ [Suc i..<k]"
      using that(1) by (metis Suc_leI le0 upt_add_eq_append le_add_diff_inverse)
    then have "filter ?P [0..<k] = filter ?P [0..<i] @ [i] @ filter ?P [Suc i..<k]"
      using that(2) by simp
    then show ?thesis by simp
  qed
  have keys: "\<forall>x\<in>set dk. fst x < length (variables mk)"
    unfolding lv dk_def using mono by auto
  have run: "fold ?g [0..<Suc k] (m0, []) = ?g k (mk, dk)"
    using ih by simp
  show ?case
  proof (cases "?P k")
    case True
    have sel: "filter ?P [0..<Suc k] = filter ?P [0..<k] @ [k]" using True by simp
    have r: "fold ?g [0..<Suc k] (m0, []) =
       (mk\<lparr>variables := variables mk @ [p @ show_nat k],
           constraints := (constraints mk)[k := (constraints mk ! k)
              \<lparr>c_expression := c_expression (constraints mk ! k) @ [(length (variables mk), f)]\<rparr>]\<rparr>,
        dk @ [(length (variables mk), k)])"
      using run True ck add_variable_to_constraint_eq [OF keys, of p f k] by simp
    have cs: "(constraints mk)[k := (constraints mk ! k)
              \<lparr>c_expression := c_expression (constraints mk ! k) @ [(length (variables mk), f)]\<rparr>] =
          map (\<lambda>i. if i < Suc k \<and> ?P i
                  then (?cs ! i)\<lparr>c_expression := c_expression (?cs ! i) @ [(?v i, f)]\<rparr>
                  else ?cs ! i) [0..<length ?cs]"
    proof (rule nth_equalityI)
      show "length ((constraints mk)[k := (constraints mk ! k)
              \<lparr>c_expression := c_expression (constraints mk ! k) @ [(length (variables mk), f)]\<rparr>]) =
            length (map (\<lambda>i. if i < Suc k \<and> ?P i
                  then (?cs ! i)\<lparr>c_expression := c_expression (?cs ! i) @ [(?v i, f)]\<rparr>
                  else ?cs ! i) [0..<length ?cs])"
        by (simp add: mk_def)
    next
      fix i
      assume "i < length ((constraints mk)[k := (constraints mk ! k)
              \<lparr>c_expression := c_expression (constraints mk ! k) @ [(length (variables mk), f)]\<rparr>])"
      then have i: "i < length ?cs" by (simp add: mk_def)
      show "(constraints mk)[k := (constraints mk ! k)
              \<lparr>c_expression := c_expression (constraints mk ! k) @ [(length (variables mk), f)]\<rparr>] ! i =
            map (\<lambda>i. if i < Suc k \<and> ?P i
                  then (?cs ! i)\<lparr>c_expression := c_expression (?cs ! i) @ [(?v i, f)]\<rparr>
                  else ?cs ! i) [0..<length ?cs] ! i"
      proof (cases "i = k")
        case True
        then show ?thesis using k \<open>?P k\<close> ck lv by (simp add: mk_def)
      next
        case False
        then have "(i < Suc k \<and> ?P i) = (i < k \<and> ?P i)" by auto
        then show ?thesis using False i by (simp add: mk_def)
      qed
    qed
    show ?thesis
      unfolding r cs sel by (simp add: mk_def dk_def)
  next
    case False
    have sel: "filter ?P [0..<Suc k] = filter ?P [0..<k]" using False by simp
    have eq: "(\<lambda>i. if i < Suc k \<and> ?P i
                  then (?cs ! i)\<lparr>c_expression := c_expression (?cs ! i) @ [(?v i, f)]\<rparr>
                  else ?cs ! i) =
              (\<lambda>i. if i < k \<and> ?P i
                  then (?cs ! i)\<lparr>c_expression := c_expression (?cs ! i) @ [(?v i, f)]\<rparr>
                  else ?cs ! i)"
    proof
      fix i
      have "(i < Suc k \<and> ?P i) = (i < k \<and> ?P i)"
        using False by (cases "i = k") auto
      then show "(if i < Suc k \<and> ?P i
                  then (?cs ! i)\<lparr>c_expression := c_expression (?cs ! i) @ [(?v i, f)]\<rparr>
                  else ?cs ! i) =
              (if i < k \<and> ?P i
                  then (?cs ! i)\<lparr>c_expression := c_expression (?cs ! i) @ [(?v i, f)]\<rparr>
                  else ?cs ! i)" by simp
    qed
    have r: "fold ?g [0..<Suc k] (m0, []) = (mk, dk)"
      using run False ck by simp
    show ?thesis unfolding r sel eq by (simp add: mk_def dk_def)
  qed
qed

lemma fold_objective_atoms:
  "fold (\<lambda>variable ob. ob\<lparr>o_expression := o_expression ob @ [(variable, - 1)]\<rparr>) vs z =
   z\<lparr>o_expression := o_expression z @ map (\<lambda>v. (v, - 1)) vs\<rparr>"
  by (induction vs arbitrary: z) simp_all


lemma add_artificial_variables_value:
  "add_artificial_variables m =
     (m\<lparr>variables := variables m @
            map (\<lambda>i. ''R'' @ show_nat i)
                (filter (\<lambda>i. c_type (constraints m ! i) = GE \<or> c_type (constraints m ! i) = EQ)
                        [0..<length (constraints m)]),
        constraints := map (\<lambda>i. if c_type (constraints m ! i) = GE \<or> c_type (constraints m ! i) = EQ
             then (constraints m ! i)\<lparr>c_expression :=
                    c_expression (constraints m ! i) @
                      [(length (variables m) +
                        length (filter (\<lambda>i. c_type (constraints m ! i) = GE \<or>
                                             c_type (constraints m ! i) = EQ) [0..<i]), 1)]\<rparr>
             else constraints m ! i) [0..<length (constraints m)]\<rparr>,
      map (\<lambda>i. (length (variables m) +
                 length (filter (\<lambda>i. c_type (constraints m ! i) = GE \<or>
                                      c_type (constraints m ! i) = EQ) [0..<i]), i))
          (filter (\<lambda>i. c_type (constraints m ! i) = GE \<or> c_type (constraints m ! i) = EQ)
                  [0..<length (constraints m)]))"
proof -
  have "add_artificial_variables m =
          fold (\<lambda>i (m, d). if (\<lambda>t. t = GE \<or> t = EQ) (c_type (constraints m ! i))
                           then add_variable_to_constraint ''R'' 1 i (m, d) else (m, d))
               [0..<length (constraints m)] (m, [])"
    by (simp add: add_artificial_variables_def)
  also have "\<dots> =
     (m\<lparr>variables := variables m @
            map (\<lambda>i. ''R'' @ show_nat i)
                (filter (\<lambda>i. (\<lambda>t. t = GE \<or> t = EQ) (c_type (constraints m ! i)))
                        [0..<length (constraints m)]),
        constraints := map (\<lambda>i. if i < length (constraints m) \<and>
                                   (\<lambda>t. t = GE \<or> t = EQ) (c_type (constraints m ! i))
             then (constraints m ! i)\<lparr>c_expression :=
                    c_expression (constraints m ! i) @
                      [(length (variables m) +
                        length (filter (\<lambda>i. (\<lambda>t. t = GE \<or> t = EQ) (c_type (constraints m ! i)))
                                       [0..<i]), 1)]\<rparr>
             else constraints m ! i) [0..<length (constraints m)]\<rparr>,
      map (\<lambda>i. (length (variables m) +
                 length (filter (\<lambda>i. (\<lambda>t. t = GE \<or> t = EQ) (c_type (constraints m ! i)))
                                [0..<i]), i))
          (filter (\<lambda>i. (\<lambda>t. t = GE \<or> t = EQ) (c_type (constraints m ! i)))
                  [0..<length (constraints m)]))"
    by (rule add_loop_explicit [OF le_refl])
  finally show ?thesis by (simp cong: map_cong)
qed

lemma create_presolve_model_value:
  assumes "nm < length st"
  shows "create_presolve_model st nm =
           (st @ [fst (add_artificial_variables (st ! nm))], length st,
            snd (add_artificial_variables (st ! nm)))"
  using assms
  by (simp add: create_presolve_model_def deepcopy_def in_place_ret_def Let_def split_beta
      nth_append)

lemma prepare_first_phase_objective_value:
  assumes "pm < length st"
  shows "prepare_first_phase_objective st pm av =
           (st @ [(st ! pm)\<lparr>objective := (objective (st ! pm))
                    \<lparr>o_expression := map (\<lambda>(var, factor). (var, 0)) (o_expression (objective (st ! pm))) @
                                     map (\<lambda>v. (v, - 1)) (map fst av)\<rparr>\<rparr>],
            length st)"
  using assms
  by (simp add: prepare_first_phase_objective_def deepcopy_def in_place_def Let_def
      nth_append fold_objective_atoms)

lemma presolve_value:
  assumes "nm < length st"
    and "add_artificial_variables (st ! nm) = (pmod, av)"
    and "fmod = pmod\<lparr>objective := (objective pmod)
                    \<lparr>o_expression := map (\<lambda>(var, factor). (var, 0)) (o_expression (objective pmod)) @
                                     map (\<lambda>v. (v, - 1)) (map fst av)\<rparr>\<rparr>"
  shows "presolve st nm =
           (st @ [pmod, fmod],
            bind_res (Some (fix_missing_basis (basic_initial_tableaux fmod)
                              (map (\<lambda>(var, i). int var) av)))
              (\<lambda>t0. bind_res (optimize t0)
                (\<lambda>t. Some (second_phase_tableaux t av (st ! nm)))))"
proof -
  have c: "create_presolve_model st nm = (st @ [pmod], length st, av)"
    using create_presolve_model_value [OF assms(1)] assms(2) by simp
  have "length st < length (st @ [pmod])" by simp
  from prepare_first_phase_objective_value [OF this, of av]
  have p: "prepare_first_phase_objective (st @ [pmod]) (length st) av =
             (st @ [pmod, fmod], Suc (length st))"
    by (simp add: assms(3))
  have n: "(st @ [pmod, fmod]) ! nm = st ! nm" using assms(1) by (simp add: nth_append)
  have f: "(st @ [pmod, fmod]) ! Suc (length st) = fmod"
    by (simp add: nth_append)
  have i: "presolve_initial_tableaux (st @ [pmod]) (length st) av =
             (st @ [pmod, fmod],
              fix_missing_basis (basic_initial_tableaux fmod) (map (\<lambda>(var, i). int var) av))"
    by (simp only: presolve_initial_tableaux_def p Let_def split_conv f)
  show ?thesis
    by (simp only: presolve_def c i Let_def split_conv n)
qed

lemma normalize_model_objective:
  assumes "normalize_model st model = (st1, nm, sl, su)"
  shows "o_type (objective (st1 ! nm)) = OMAX" and "nm < length st1"
proof -
  let ?m3 = "change_constraints_bounds_to_nonnegative (change_objective_to_max (st ! model))"
  obtain m4 sl' where a: "add_slack_variables ?m3 = (m4, sl')"
    by (cases "add_slack_variables ?m3") auto
  obtain m5 su' where b: "add_surplus_variables m4 = (m5, su')"
    by (cases "add_surplus_variables m4") auto
  have "normalize_model st model = ((st @ [st ! model])[length st := m5], length st, sl', su')"
    using a b
    by (simp add: normalize_model_def deepcopy_def in_place_def in_place_ret_def Let_def)
  with assms have st1: "st1 = st @ [m5]" and nm: "nm = length st" by auto
  from add_loop [of "length (constraints ?m3)" ?m3 "\<lambda>t. t = LE" "''s''" 1] a
  have o4: "objective m4 = objective ?m3" by (auto simp: add_slack_variables_def)
  from add_loop [of "length (constraints m4)" m4 "\<lambda>t. t = GE" "''s''" "- 1"] b
  have o5: "objective m5 = objective m4" by (auto simp: add_surplus_variables_def)
  have "o_type (objective ?m3) = OMAX"
    by (cases "o_type (objective (st ! model))")
       (simp_all add: change_constraints_bounds_to_nonnegative_def change_objective_to_max_def
          invert_objective_def)
  then show "o_type (objective (st1 ! nm)) = OMAX" by (simp add: st1 nm o5 o4)
  show "nm < length st1" by (simp add: st1 nm)
qed

lemma var_positions:
  "map (\<lambda>i. length (filter P [0..<i])) (filter P [0..<k]) = [0..<length (filter P [0..<k])]"
  by (induction k) simp_all

lemma sum_unit_atoms:
  "sum_list (map snd (filter (\<lambda>(v, f). v = c) (map (\<lambda>v. (v, 1::rat)) [n..<n + a]))) =
     (if n \<le> c \<and> c < n + a then 1 else 0)"
  by (induction a) auto

lemma sum_zero_atoms:
  "sum_list (map snd (filter (\<lambda>(v, f). v = c) (scale k (map (\<lambda>(v, f). (v, 0)) e)))) = 0"
  by (induction e) (auto simp: scale_def)

lemma map_add_upt_left: "map (\<lambda>j. n + j) [0..<a] = [n..<n + a]"
  by (induction a) simp_all

lemma first_phase_cost_row:
  assumes fm: "objective fm =
        \<lparr>o_expression = map (\<lambda>(v, f). (v, 0)) e @
            map (\<lambda>i. (n + length (filter P [0..<i]), - 1)) (filter P [0..<k]),
         o_type = t\<rparr>"
    and lv: "length (variables fm) = n + length (filter P [0..<k])"
  shows "basic_initial_tableaux fm ! 0 =
           replicate n 0 @ replicate (length (filter P [0..<k])) 1 @ [0]"
proof -
  let ?a = "length (filter P [0..<k])"
  have "map (\<lambda>i. n + length (filter P [0..<i])) (filter P [0..<k]) =
        map (\<lambda>j. n + j) (map (\<lambda>i. length (filter P [0..<i])) (filter P [0..<k]))"
    by simp
  also have "\<dots> = map (\<lambda>j. n + j) [0..<?a]" by (simp only: var_positions)
  also have "\<dots> = [n..<n + ?a]" by (rule map_add_upt_left)
  finally have vs: "map (\<lambda>i. n + length (filter P [0..<i])) (filter P [0..<k]) = [n..<n + ?a]" .
  have "scale (- 1) (map (\<lambda>i. (n + length (filter P [0..<i]), - 1)) (filter P [0..<k])) =
        map (\<lambda>v. (v, 1)) (map (\<lambda>i. n + length (filter P [0..<i])) (filter P [0..<k]))"
    by (simp add: scale_def)
  then have sc: "scale (- 1) (o_expression (objective fm)) =
        scale (- 1) (map (\<lambda>(v, f). (v, 0)) e) @ map (\<lambda>v. (v, 1)) [n..<n + ?a]"
    unfolding vs by (simp add: fm scale_def)
  have f: "factors fm (scale (- 1) (o_expression (objective fm))) =
             map (\<lambda>c. if n \<le> c \<and> c < n + ?a then 1 else 0) [0..<n + ?a]"
    unfolding factors_def sc lv
    by (simp add: sum_zero_atoms sum_unit_atoms)
  have "map (\<lambda>c. if n \<le> c \<and> c < n + ?a then 1 else (0::rat)) [0..<n + ?a] =
        replicate n 0 @ replicate ?a 1"
    by (rule nth_equalityI) (auto simp: nth_append)
  then show ?thesis
    by (simp add: basic_initial_tableaux_def f)
qed

text \<open>
  C8. After normalisation, the number of slack variables is below the number of constraints
  exactly when some constraint of the normalised model is \<open>\<ge>\<close> or \<open>=\<close>. In that case
  \<open>solve\<close> takes its tableau from \<open>_presolve\<close>; when every constraint is \<open>\<le>\<close> it builds
  the tableau of the normalised model directly with \<open>_basic_initial_tableaux\<close> and
  optimises from there.

  The directly built tableau carries the natural slack basis: for a model whose
  expressions are over its own variables, constraint \<open>j\<close> has the slack variable numbered
  \<open>n + j\<close> (\<open>n\<close> the number of variables of the caller's model), and the column of that
  variable is zero in the cost row and in every constraint row but its own, where it is one.

  When some constraint is \<open>\<ge>\<close> or \<open>=\<close>, \<open>_presolve\<close> is the first phase:
  \<^item> \<open>_create_presolve_model\<close> copies the normalised model and gives each \<open>\<ge>\<close> or \<open>=\<close>
    constraint, in order, a fresh artificial variable \<open>R\<close>\<open>i\<close> (\<open>i\<close> the position of the
    constraint), numbered after the variables of the normalised model, with coefficient 1
    in that constraint and in no other; there is at least one;
  \<^item> \<open>_prepare_first_phase_objective\<close> copies that model and replaces the objective by the
    auxiliary one: maximise minus the sum of the artificial variables, every other factor 0;
    the cost row built from it is 0 for each variable of the normalised model, 1 for each
    artificial variable, and 0 on the right-hand side;
  \<^item> \<open>_presolve\<close> builds the tableau of that model, reduces its cost row over the
    artificial basis with \<open>_fix_missing_basis\<close>, runs \<open>_optimize\<close> on it and hands the
    result to the feasibility check and the passage to the second phase.
\<close>

theorem phase_one_decision:
  assumes "normalize_model st model = (st1, normal_model, slack_variables, surplus_variables)"
  shows "(length slack_variables < length (constraints (st1 ! normal_model))) =
           list_ex (\<lambda>c. c_type c = GE \<or> c_type c = EQ) (constraints (st1 ! normal_model)) \<and>
         solve st model =
           (if list_ex (\<lambda>c. c_type c = GE \<or> c_type c = EQ) (constraints (st1 ! normal_model))
            then (fst (presolve st1 normal_model),
                  solve_from_tableaux (fst (presolve st1 normal_model)) model
                    (snd (presolve st1 normal_model)))
            else (st1, solve_from_tableaux st1 model
                         (Some (Inr (basic_initial_tableaux (st1 ! normal_model)))))) \<and>
         (well_formed (st ! model) \<and>
          \<not> list_ex (\<lambda>c. c_type c = GE \<or> c_type c = EQ) (constraints (st1 ! normal_model)) \<longrightarrow>
            slack_variables = map (\<lambda>i. (length (variables (st ! model)) + i, i))
                                  [0..<length (constraints (st ! model))] \<and>
            (\<forall>j<length (constraints (st ! model)).
               column (basic_initial_tableaux (st1 ! normal_model))
                      (length (variables (st ! model)) + j) =
               (replicate (Suc (length (constraints (st ! model)))) 0)[Suc j := 1])) \<and>
         (list_ex (\<lambda>c. c_type c = GE \<or> c_type c = EQ) (constraints (st1 ! normal_model)) \<longrightarrow>
            (let normal = st1 ! normal_model;
                 needs = (\<lambda>i. c_type (constraints normal ! i) = GE \<or>
                               c_type (constraints normal ! i) = EQ);
                 rows = filter needs [0..<length (constraints normal)];
                 var = (\<lambda>i. length (variables normal) + length (filter needs [0..<i]));
                 artificial_variables = map (\<lambda>i. (var i, i)) rows;
                 presolve_model = normal
                   \<lparr>variables := variables normal @ map (\<lambda>i. ''R'' @ show_nat i) rows,
                    constraints := map (\<lambda>i. if needs i
                         then (constraints normal ! i)\<lparr>c_expression :=
                                c_expression (constraints normal ! i) @ [(var i, 1)]\<rparr>
                         else constraints normal ! i) [0..<length (constraints normal)]\<rparr>;
                 first_phase_model = presolve_model
                   \<lparr>objective :=
                      \<lparr>o_expression = map (\<lambda>(v, f). (v, 0)) (o_expression (objective normal)) @
                                       map (\<lambda>i. (var i, - 1)) rows,
                       o_type = OMAX\<rparr>\<rparr>
             in rows \<noteq> [] \<and>
                create_presolve_model st1 normal_model =
                  (st1 @ [presolve_model], length st1, artificial_variables) \<and>
                prepare_first_phase_objective (st1 @ [presolve_model]) (length st1)
                    artificial_variables =
                  (st1 @ [presolve_model, first_phase_model], Suc (length st1)) \<and>
                basic_initial_tableaux first_phase_model ! 0 =
                  replicate (length (variables normal)) 0 @ replicate (length rows) 1 @ [0] \<and>
                presolve st1 normal_model =
                  (st1 @ [presolve_model, first_phase_model],
                   bind_res (Some (fix_missing_basis (basic_initial_tableaux first_phase_model)
                                     (map (\<lambda>i. int (var i)) rows)))
                     (\<lambda>t0. bind_res (optimize t0)
                       (\<lambda>t. Some (second_phase_tableaux t artificial_variables normal))))))"
proof -
  have ne: "(\<lambda>c. c_type c \<noteq> LE) = (\<lambda>c. c_type c = GE \<or> c_type c = EQ)"
  proof
    fix c show "(c_type c \<noteq> LE) = (c_type c = GE \<or> c_type c = EQ)"
      by (cases "c_type c") simp_all
  qed
  have d: "(length slack_variables < length (constraints (st1 ! normal_model))) =
           list_ex (\<lambda>c. c_type c = GE \<or> c_type c = EQ) (constraints (st1 ! normal_model))"
    using filter_shorter_iff [of "\<lambda>c. c_type c = LE" "constraints (st1 ! normal_model)"]
    by (simp add: normalize_model_slack_count [OF assms] ne)
  have s: "solve st model =
           (if list_ex (\<lambda>c. c_type c = GE \<or> c_type c = EQ) (constraints (st1 ! normal_model))
            then (fst (presolve st1 normal_model),
                  solve_from_tableaux (fst (presolve st1 normal_model)) model
                    (snd (presolve st1 normal_model)))
            else (st1, solve_from_tableaux st1 model
                         (Some (Inr (basic_initial_tableaux (st1 ! normal_model))))))"
    using solve_unfold [OF assms] d by simp
  have b: "well_formed (st ! model) \<and>
          \<not> list_ex (\<lambda>c. c_type c = GE \<or> c_type c = EQ) (constraints (st1 ! normal_model)) \<longrightarrow>
            slack_variables = map (\<lambda>i. (length (variables (st ! model)) + i, i))
                                  [0..<length (constraints (st ! model))] \<and>
            (\<forall>j<length (constraints (st ! model)).
               column (basic_initial_tableaux (st1 ! normal_model))
                      (length (variables (st ! model)) + j) =
               (replicate (Suc (length (constraints (st ! model)))) 0)[Suc j := 1])"
  proof (intro impI, elim conjE, intro conjI)
    assume wf: "well_formed (st ! model)"
      and le: "\<not> list_ex (\<lambda>c. c_type c = GE \<or> c_type c = EQ) (constraints (st1 ! normal_model))"
    show "slack_variables = map (\<lambda>i. (length (variables (st ! model)) + i, i))
                                  [0..<length (constraints (st ! model))]"
      by (rule normalize_model_all_le(2) [OF assms le wf])
    show "\<forall>j<length (constraints (st ! model)).
               column (basic_initial_tableaux (st1 ! normal_model))
                      (length (variables (st ! model)) + j) =
               (replicate (Suc (length (constraints (st ! model)))) 0)[Suc j := 1]"
      by (rule normalize_model_all_le(4) [OF assms le wf])
  qed
  have p: "list_ex (\<lambda>c. c_type c = GE \<or> c_type c = EQ) (constraints (st1 ! normal_model)) \<longrightarrow>
            (let normal = st1 ! normal_model;
                 needs = (\<lambda>i. c_type (constraints normal ! i) = GE \<or>
                               c_type (constraints normal ! i) = EQ);
                 rows = filter needs [0..<length (constraints normal)];
                 var = (\<lambda>i. length (variables normal) + length (filter needs [0..<i]));
                 artificial_variables = map (\<lambda>i. (var i, i)) rows;
                 presolve_model = normal
                   \<lparr>variables := variables normal @ map (\<lambda>i. ''R'' @ show_nat i) rows,
                    constraints := map (\<lambda>i. if needs i
                         then (constraints normal ! i)\<lparr>c_expression :=
                                c_expression (constraints normal ! i) @ [(var i, 1)]\<rparr>
                         else constraints normal ! i) [0..<length (constraints normal)]\<rparr>;
                 first_phase_model = presolve_model
                   \<lparr>objective :=
                      \<lparr>o_expression = map (\<lambda>(v, f). (v, 0)) (o_expression (objective normal)) @
                                       map (\<lambda>i. (var i, - 1)) rows,
                       o_type = OMAX\<rparr>\<rparr>
             in rows \<noteq> [] \<and>
                create_presolve_model st1 normal_model =
                  (st1 @ [presolve_model], length st1, artificial_variables) \<and>
                prepare_first_phase_objective (st1 @ [presolve_model]) (length st1)
                    artificial_variables =
                  (st1 @ [presolve_model, first_phase_model], Suc (length st1)) \<and>
                basic_initial_tableaux first_phase_model ! 0 =
                  replicate (length (variables normal)) 0 @ replicate (length rows) 1 @ [0] \<and>
                presolve st1 normal_model =
                  (st1 @ [presolve_model, first_phase_model],
                   bind_res (Some (fix_missing_basis (basic_initial_tableaux first_phase_model)
                                     (map (\<lambda>i. int (var i)) rows)))
                     (\<lambda>t0. bind_res (optimize t0)
                       (\<lambda>t. Some (second_phase_tableaux t artificial_variables normal)))))"
  proof
    assume ex: "list_ex (\<lambda>c. c_type c = GE \<or> c_type c = EQ) (constraints (st1 ! normal_model))"
    define normal where "normal = st1 ! normal_model"
    define needs where "needs = (\<lambda>i. c_type (constraints normal ! i) = GE \<or>
                               c_type (constraints normal ! i) = EQ)"
    define rows where "rows = filter needs [0..<length (constraints normal)]"
    define var where "var = (\<lambda>i. length (variables normal) + length (filter needs [0..<i]))"
    define artificial_variables where "artificial_variables = map (\<lambda>i. (var i, i)) rows"
    define presolve_model where "presolve_model = normal
                   \<lparr>variables := variables normal @ map (\<lambda>i. ''R'' @ show_nat i) rows,
                    constraints := map (\<lambda>i. if needs i
                         then (constraints normal ! i)\<lparr>c_expression :=
                                c_expression (constraints normal ! i) @ [(var i, 1)]\<rparr>
                         else constraints normal ! i) [0..<length (constraints normal)]\<rparr>"
    define first_phase_model where "first_phase_model = presolve_model
                   \<lparr>objective :=
                      \<lparr>o_expression = map (\<lambda>(v, f). (v, 0)) (o_expression (objective normal)) @
                                       map (\<lambda>i. (var i, - 1)) rows,
                       o_type = OMAX\<rparr>\<rparr>"
    have lt: "normal_model < length st1" and mx: "o_type (objective normal) = OMAX"
      using normalize_model_objective [OF assms] by (simp_all add: normal_def)
    have av: "add_artificial_variables (st1 ! normal_model) = (presolve_model, artificial_variables)"
      unfolding add_artificial_variables_value presolve_model_def artificial_variables_def
        rows_def var_def needs_def normal_def ..
    have ob: "(objective presolve_model)
                \<lparr>o_expression := map (\<lambda>(var, factor). (var, 0)) (o_expression (objective presolve_model)) @
                                 map (\<lambda>v. (v, - 1)) (map fst artificial_variables)\<rparr> =
              \<lparr>o_expression = map (\<lambda>(v, f). (v, 0)) (o_expression (objective normal)) @
                                       map (\<lambda>i. (var i, - 1)) rows,
               o_type = OMAX\<rparr>"
      using mx by (simp add: presolve_model_def artificial_variables_def comp_def)
    have fm: "first_phase_model = presolve_model\<lparr>objective := (objective presolve_model)
                \<lparr>o_expression := map (\<lambda>(var, factor). (var, 0)) (o_expression (objective presolve_model)) @
                                 map (\<lambda>v. (v, - 1)) (map fst artificial_variables)\<rparr>\<rparr>"
      unfolding ob first_phase_model_def ..
    have c1: "rows \<noteq> []"
    proof -
      from ex obtain c where c: "c \<in> set (constraints normal)" "c_type c = GE \<or> c_type c = EQ"
        unfolding list_ex_iff normal_def by blast
      then obtain i where i: "i < length (constraints normal)" "constraints normal ! i = c"
        by (auto simp: in_set_conv_nth)
      then have "i \<in> set rows" using c(2) by (simp add: rows_def needs_def)
      then show ?thesis by auto
    qed
    have c2: "create_presolve_model st1 normal_model =
                  (st1 @ [presolve_model], length st1, artificial_variables)"
      using create_presolve_model_value [OF lt] av by simp
    have "length st1 < length (st1 @ [presolve_model])" by simp
    from prepare_first_phase_objective_value [OF this, of artificial_variables]
    have c3: "prepare_first_phase_objective (st1 @ [presolve_model]) (length st1)
                    artificial_variables =
                  (st1 @ [presolve_model, first_phase_model], Suc (length st1))"
      by (simp add: fm)
    have bs: "map (\<lambda>(var, i). int var) artificial_variables = map (\<lambda>i. int (var i)) rows"
      by (simp add: artificial_variables_def comp_def)
    have c4: "presolve st1 normal_model =
                  (st1 @ [presolve_model, first_phase_model],
                   bind_res (Some (fix_missing_basis (basic_initial_tableaux first_phase_model)
                                     (map (\<lambda>i. int (var i)) rows)))
                     (\<lambda>t0. bind_res (optimize t0)
                       (\<lambda>t. Some (second_phase_tableaux t artificial_variables normal))))"
      using presolve_value [OF lt av fm] unfolding bs normal_def .
    have "objective first_phase_model =
            \<lparr>o_expression = map (\<lambda>(v, f). (v, 0)) (o_expression (objective normal)) @
                map (\<lambda>i. (length (variables normal) + length (filter needs [0..<i]), - 1))
                    (filter needs [0..<length (constraints normal)]),
             o_type = OMAX\<rparr>"
      by (simp add: first_phase_model_def var_def rows_def)
    moreover have "length (variables first_phase_model) =
            length (variables normal) + length (filter needs [0..<length (constraints normal)])"
      by (simp add: first_phase_model_def presolve_model_def rows_def)
    ultimately have c5: "basic_initial_tableaux first_phase_model ! 0 =
                  replicate (length (variables normal)) 0 @ replicate (length rows) 1 @ [0]"
      unfolding rows_def by (rule first_phase_cost_row)
    from c1 c2 c3 c5 c4 show "(let normal = st1 ! normal_model;
                 needs = (\<lambda>i. c_type (constraints normal ! i) = GE \<or>
                               c_type (constraints normal ! i) = EQ);
                 rows = filter needs [0..<length (constraints normal)];
                 var = (\<lambda>i. length (variables normal) + length (filter needs [0..<i]));
                 artificial_variables = map (\<lambda>i. (var i, i)) rows;
                 presolve_model = normal
                   \<lparr>variables := variables normal @ map (\<lambda>i. ''R'' @ show_nat i) rows,
                    constraints := map (\<lambda>i. if needs i
                         then (constraints normal ! i)\<lparr>c_expression :=
                                c_expression (constraints normal ! i) @ [(var i, 1)]\<rparr>
                         else constraints normal ! i) [0..<length (constraints normal)]\<rparr>;
                 first_phase_model = presolve_model
                   \<lparr>objective :=
                      \<lparr>o_expression = map (\<lambda>(v, f). (v, 0)) (o_expression (objective normal)) @
                                       map (\<lambda>i. (var i, - 1)) rows,
                       o_type = OMAX\<rparr>\<rparr>
             in rows \<noteq> [] \<and>
                create_presolve_model st1 normal_model =
                  (st1 @ [presolve_model], length st1, artificial_variables) \<and>
                prepare_first_phase_objective (st1 @ [presolve_model]) (length st1)
                    artificial_variables =
                  (st1 @ [presolve_model, first_phase_model], Suc (length st1)) \<and>
                basic_initial_tableaux first_phase_model ! 0 =
                  replicate (length (variables normal)) 0 @ replicate (length rows) 1 @ [0] \<and>
                presolve st1 normal_model =
                  (st1 @ [presolve_model, first_phase_model],
                   bind_res (Some (fix_missing_basis (basic_initial_tableaux first_phase_model)
                                     (map (\<lambda>i. int (var i)) rows)))
                     (\<lambda>t0. bind_res (optimize t0)
                       (\<lambda>t. Some (second_phase_tableaux t artificial_variables normal)))))"
      unfolding Let_def first_phase_model_def presolve_model_def artificial_variables_def
        var_def rows_def needs_def normal_def
      by (intro conjI)
  qed
  from d s b p show ?thesis by (intro conjI)
qed


theorem phase_one_decision_witness:
  "(normalize_model [integer_01_solvable] 0 =
     ([integer_01_solvable,
       \<lparr>variables = [''x1'', ''x2'', ''s0'', ''s1''],
        constraints = [\<lparr>c_expression = [(0, 1), (1, 1), (2, 1)], c_type = LE, bound = 6\<rparr>,
                       \<lparr>c_expression = [(0, 5), (1, 9), (3, 1)], c_type = LE, bound = 45\<rparr>],
        objective = \<lparr>o_expression = [(0, 5), (1, 8)], o_type = OMAX\<rparr>\<rparr>],
      1, [(2, 0), (3, 1)], []) \<and>
   \<not> length [(2::nat, 0::nat), (3, 1)] < 2 \<and>
   fst (solve [integer_01_solvable] 0) ! 1 =
       \<lparr>variables = [''x1'', ''x2'', ''s0'', ''s1''],
        constraints = [\<lparr>c_expression = [(0, 1), (1, 1), (2, 1)], c_type = LE, bound = 6\<rparr>,
                       \<lparr>c_expression = [(0, 5), (1, 9), (3, 1)], c_type = LE, bound = 45\<rparr>],
        objective = \<lparr>o_expression = [(0, 5), (1, 8)], o_type = OMAX\<rparr>\<rparr> \<and>
   well_formed integer_01_solvable \<and>
   column integer_01_tableaux 2 = [0, 1, 0] \<and>
   column integer_01_tableaux 3 = [0, 0, 1]) \<and>
   (normalize_model [zad1] 0 = ([zad1, zad1_normal], 1, [(3, 0), (4, 2)], [(5, 1)]) \<and>
    length [(3::nat, 0::nat), (4, 2)] < length (constraints zad1_normal) \<and>
    create_presolve_model [zad1, zad1_normal] 1 =
      ([zad1, zad1_normal, zad1_presolve], 2, [(6, 1)]) \<and>
    prepare_first_phase_objective [zad1, zad1_normal, zad1_presolve] 2 [(6, 1)] =
      ([zad1, zad1_normal, zad1_presolve, zad1_first_phase], 3) \<and>
    basic_initial_tableaux zad1_first_phase ! 0 = [0, 0, 0, 0, 0, 0, 1, 0] \<and>
    presolve [zad1, zad1_normal] 1 =
      ([zad1, zad1_normal, zad1_presolve, zad1_first_phase],
       Some (Inr [[- (3 / 2), 0, - (5 / 2), 0, 0, - (1 / 2), 5],
                  [1 / 2, 0, 1 / 2, 1, 0, 1 / 2, 25],
                  [1 / 2, 1, 1 / 2, 0, 0, - (1 / 2), 5],
                  [- 1, 0, 0, 0, 1, 1, 10]])) \<and>
    solve [zad1] 0 =
      ([zad1, zad1_normal, zad1_presolve, zad1_first_phase],
       Some (Inr \<lparr>sol_model = 0, assignment = [10, 0, 20]\<rparr>)))"
proof -
  define nmod where "nmod =
       \<lparr>variables = [''x1'', ''x2'', ''s0'', ''s1''],
        constraints = [\<lparr>c_expression = [(0, 1), (1, 1), (2, 1)], c_type = LE, bound = 6\<rparr>,
                       \<lparr>c_expression = [(0, 5), (1, 9), (3, 1)], c_type = LE, bound = 45\<rparr>],
        objective = \<lparr>o_expression = [(0, 5), (1, 8)], o_type = OMAX\<rparr>\<rparr>"
  have h: "normalize_model [integer_01_solvable] 0 =
     ([integer_01_solvable, nmod], 1, [(2, 0), (3, 1)], [])"
    unfolding nmod_def by code_simp
  have w: "well_formed ([integer_01_solvable] ! 0)" by code_simp
  have l: "\<not> list_ex (\<lambda>c. c_type c = GE \<or> c_type c = EQ)
              (constraints ([integer_01_solvable, nmod] ! 1))"
    by (simp add: nmod_def)
  have t: "basic_initial_tableaux ([integer_01_solvable, nmod] ! 1) = integer_01_tableaux"
    unfolding nmod_def by code_simp
  have v: "length (variables ([integer_01_solvable] ! 0)) = 2"
    and k: "length (constraints ([integer_01_solvable] ! 0)) = 2"
    by code_simp+
  note p = phase_one_decision [OF h]
  from p l have a: "fst (solve [integer_01_solvable] 0) ! 1 = nmod" by simp
  from p w l have c: "\<forall>j<2. column integer_01_tableaux (2 + j) =
                         (replicate (Suc 2) 0)[Suc j := 1]"
    unfolding t v k by blast
  from c [rule_format, of 0] have c0: "column integer_01_tableaux 2 = [0, 1, 0]"
    by (simp add: numeral_3_eq_3 numeral_2_eq_2)
  from c [rule_format, of 1] have c1: "column integer_01_tableaux 3 = [0, 0, 1]"
    by (simp add: numeral_3_eq_3 numeral_2_eq_2)
  from h a w c0 c1 have one_phase:
    "normalize_model [integer_01_solvable] 0 =
     ([integer_01_solvable,
       \<lparr>variables = [''x1'', ''x2'', ''s0'', ''s1''],
        constraints = [\<lparr>c_expression = [(0, 1), (1, 1), (2, 1)], c_type = LE, bound = 6\<rparr>,
                       \<lparr>c_expression = [(0, 5), (1, 9), (3, 1)], c_type = LE, bound = 45\<rparr>],
        objective = \<lparr>o_expression = [(0, 5), (1, 8)], o_type = OMAX\<rparr>\<rparr>],
      1, [(2, 0), (3, 1)], []) \<and>
   \<not> length [(2::nat, 0::nat), (3, 1)] < 2 \<and>
   fst (solve [integer_01_solvable] 0) ! 1 =
       \<lparr>variables = [''x1'', ''x2'', ''s0'', ''s1''],
        constraints = [\<lparr>c_expression = [(0, 1), (1, 1), (2, 1)], c_type = LE, bound = 6\<rparr>,
                       \<lparr>c_expression = [(0, 5), (1, 9), (3, 1)], c_type = LE, bound = 45\<rparr>],
        objective = \<lparr>o_expression = [(0, 5), (1, 8)], o_type = OMAX\<rparr>\<rparr> \<and>
   well_formed integer_01_solvable \<and>
   column integer_01_tableaux 2 = [0, 1, 0] \<and>
   column integer_01_tableaux 3 = [0, 0, 1]"
    unfolding nmod_def by simp
  have hz: "normalize_model [zad1] 0 = ([zad1, zad1_normal], 1, [(3, 0), (4, 2)], [(5, 1)])"
    by code_simp
  have lz: "list_ex (\<lambda>c. c_type c = GE \<or> c_type c = EQ) (constraints ([zad1, zad1_normal] ! 1))"
    by code_simp
  have z2: "length [(3::nat, 0::nat), (4, 2)] < length (constraints zad1_normal)"
    by code_simp
  define normal where "normal = [zad1, zad1_normal] ! 1"
  define needs where "needs = (\<lambda>i. c_type (constraints normal ! i) = GE \<or>
                               c_type (constraints normal ! i) = EQ)"
  define rows where "rows = filter needs [0..<length (constraints normal)]"
  define var where "var = (\<lambda>i. length (variables normal) + length (filter needs [0..<i]))"
  define artificial_variables where "artificial_variables = map (\<lambda>i. (var i, i)) rows"
  define presolve_model where "presolve_model = normal
                   \<lparr>variables := variables normal @ map (\<lambda>i. ''R'' @ show_nat i) rows,
                    constraints := map (\<lambda>i. if needs i
                         then (constraints normal ! i)\<lparr>c_expression :=
                                c_expression (constraints normal ! i) @ [(var i, 1)]\<rparr>
                         else constraints normal ! i) [0..<length (constraints normal)]\<rparr>"
  define first_phase_model where "first_phase_model = presolve_model
                   \<lparr>objective :=
                      \<lparr>o_expression = map (\<lambda>(v, f). (v, 0)) (o_expression (objective normal)) @
                                       map (\<lambda>i. (var i, - 1)) rows,
                       o_type = OMAX\<rparr>\<rparr>"
  have ar: "artificial_variables = [(6, 1)]"
    unfolding artificial_variables_def var_def rows_def needs_def normal_def by code_simp
  have pv: "presolve_model = zad1_presolve"
    unfolding presolve_model_def var_def rows_def needs_def normal_def by code_simp
  have fv: "first_phase_model = zad1_first_phase"
    unfolding first_phase_model_def presolve_model_def var_def rows_def needs_def normal_def
    by code_simp
  note q = phase_one_decision [OF hz]
  from q lz have q1: "create_presolve_model [zad1, zad1_normal] 1 =
                  ([zad1, zad1_normal] @ [presolve_model], length [zad1, zad1_normal],
                   artificial_variables)"
    and q2: "prepare_first_phase_objective ([zad1, zad1_normal] @ [presolve_model])
               (length [zad1, zad1_normal]) artificial_variables =
                  ([zad1, zad1_normal] @ [presolve_model, first_phase_model],
                   Suc (length [zad1, zad1_normal]))"
    and q3: "fst (presolve [zad1, zad1_normal] 1) =
               [zad1, zad1_normal] @ [presolve_model, first_phase_model]"
    and q5: "basic_initial_tableaux first_phase_model ! 0 =
               replicate (length (variables normal)) 0 @ replicate (length rows) 1 @ [0]"
    unfolding Let_def first_phase_model_def presolve_model_def artificial_variables_def
        var_def rows_def needs_def normal_def
    by simp_all
  from q lz have sz: "solve [zad1] 0 =
      (fst (presolve [zad1, zad1_normal] 1),
       solve_from_tableaux (fst (presolve [zad1, zad1_normal] 1)) 0
         (snd (presolve [zad1, zad1_normal] 1)))"
    by simp
  have z3: "create_presolve_model [zad1, zad1_normal] 1 =
      ([zad1, zad1_normal, zad1_presolve], 2, [(6, 1)])"
    using q1 unfolding ar pv by simp
  have z4: "prepare_first_phase_objective [zad1, zad1_normal, zad1_presolve] 2 [(6, 1)] =
      ([zad1, zad1_normal, zad1_presolve, zad1_first_phase], 3)"
    using q2 unfolding ar pv fv by (simp add: numeral_2_eq_2 numeral_3_eq_3)
  have nv: "length (variables normal) = 6" and nr: "length rows = 1"
    unfolding rows_def needs_def normal_def by code_simp+
  have z7: "basic_initial_tableaux zad1_first_phase ! 0 = [0, 0, 0, 0, 0, 0, 1, 0]"
    using q5 unfolding fv nv nr by (simp add: numeral_eq_Suc)
  have f5: "fst (presolve [zad1, zad1_normal] 1) =
              [zad1, zad1_normal, zad1_presolve, zad1_first_phase]"
    using q3 unfolding pv fv by simp
  have s5: "snd (presolve [zad1, zad1_normal] 1) =
       Some (Inr [[- (3 / 2), 0, - (5 / 2), 0, 0, - (1 / 2), 5],
                  [1 / 2, 0, 1 / 2, 1, 0, 1 / 2, 25],
                  [1 / 2, 1, 1 / 2, 0, 0, - (1 / 2), 5],
                  [- 1, 0, 0, 0, 1, 1, 10]])"
    by code_simp
  have z5: "presolve [zad1, zad1_normal] 1 =
      ([zad1, zad1_normal, zad1_presolve, zad1_first_phase],
       Some (Inr [[- (3 / 2), 0, - (5 / 2), 0, 0, - (1 / 2), 5],
                  [1 / 2, 0, 1 / 2, 1, 0, 1 / 2, 25],
                  [1 / 2, 1, 1 / 2, 0, 0, - (1 / 2), 5],
                  [- 1, 0, 0, 0, 1, 1, 10]]))"
    using f5 s5 by (simp only: prod_eq_iff fst_conv snd_conv simp_thms)
  have ev: "solve_from_tableaux (fst (presolve [zad1, zad1_normal] 1)) 0
              (snd (presolve [zad1, zad1_normal] 1)) =
              Some (Inr \<lparr>sol_model = 0, assignment = [10, 0, 20]\<rparr>)"
    by code_simp
  have z6: "solve [zad1] 0 =
      ([zad1, zad1_normal, zad1_presolve, zad1_first_phase],
       Some (Inr \<lparr>sol_model = 0, assignment = [10, 0, 20]\<rparr>))"
    using sz [unfolded ev] unfolding f5 .
  from hz z2 z3 z4 z7 z5 z6 have two_phase:
   "normalize_model [zad1] 0 = ([zad1, zad1_normal], 1, [(3, 0), (4, 2)], [(5, 1)]) \<and>
    length [(3::nat, 0::nat), (4, 2)] < length (constraints zad1_normal) \<and>
    create_presolve_model [zad1, zad1_normal] 1 =
      ([zad1, zad1_normal, zad1_presolve], 2, [(6, 1)]) \<and>
    prepare_first_phase_objective [zad1, zad1_normal, zad1_presolve] 2 [(6, 1)] =
      ([zad1, zad1_normal, zad1_presolve, zad1_first_phase], 3) \<and>
    basic_initial_tableaux zad1_first_phase ! 0 = [0, 0, 0, 0, 0, 0, 1, 0] \<and>
    presolve [zad1, zad1_normal] 1 =
      ([zad1, zad1_normal, zad1_presolve, zad1_first_phase],
       Some (Inr [[- (3 / 2), 0, - (5 / 2), 0, 0, - (1 / 2), 5],
                  [1 / 2, 0, 1 / 2, 1, 0, 1 / 2, 25],
                  [1 / 2, 1, 1 / 2, 0, 0, - (1 / 2), 5],
                  [- 1, 0, 0, 0, 1, 1, 10]])) \<and>
    solve [zad1] 0 =
      ([zad1, zad1_normal, zad1_presolve, zad1_first_phase],
       Some (Inr \<lparr>sol_model = 0, assignment = [10, 0, 20]\<rparr>))"
    by (intro conjI)
  from one_phase two_phase show ?thesis by (rule conjI)
qed

section \<open>The unbounded failure\<close>

lemma choose_entering_variable_error:
  "choose_entering_variable t = Inl e \<Longrightarrow> e = ValueError \<or> e = IndexError"
  by (auto simp: choose_entering_variable_def Let_def split: if_splits ext.splits option.splits)

lemma choose_leaving_variable_error:
  "choose_leaving_variable t col = Inl e \<Longrightarrow> e = ValueError"
  by (auto simp: choose_leaving_variable_def Let_def split: if_splits option.splits)

lemma pivot_error: "pivot t row col = Inl e \<Longrightarrow> e = IndexError \<or> e = NonFinite"
  by (auto simp: pivot_def Let_def split: if_splits)

lemma step_Unbounded_iff:
  "(step t = Inl Unbounded) = (\<exists>col. choose_entering_variable t = Inr col \<and> is_unbounded t col)"
proof (cases "choose_entering_variable t")
  case (Inl e)
  with choose_entering_variable_error [OF Inl] show ?thesis
    by (auto simp: step_def)
next
  case (Inr col)
  show ?thesis
  proof (cases "is_unbounded t col")
    case True
    with Inr show ?thesis by (simp add: step_def)
  next
    case False
    have "step t \<noteq> Inl Unbounded"
    proof (cases "choose_leaving_variable t col")
      case (Inl e)
      with choose_leaving_variable_error [OF Inl] Inr False show ?thesis
        by (simp add: step_def)
    next
      case r: (Inr row)
      have "pivot t row col \<noteq> Inl Unbounded" using pivot_error by fastforce
      with r Inr False show ?thesis by (simp add: step_def)
    qed
    with Inr False show ?thesis by simp
  qed
qed

lemma pivots_unbounded_optimize:
  "pivots n t0 = Some t \<Longrightarrow> \<not> is_optimal t \<Longrightarrow> step t = Inl Unbounded \<Longrightarrow>
   optimize t0 = Some (Inl Unbounded)"
proof (induction n arbitrary: t0)
  case 0
  then show ?case by (simp add: optimize.simps [of t])
next
  case (Suc n)
  from Suc.prems(1) obtain t1 where s: "\<not> is_optimal t0" "step t0 = Inr t1" "pivots n t1 = Some t"
    by (auto split: if_splits sum.splits)
  from Suc.IH [OF s(3) Suc.prems(2,3)] s(1,2) show ?case
    by (simp add: optimize.simps [of t0])
qed

lemma optimize_unbounded_pivots:
  assumes "optimize t0 = Some r"
  shows "r = Inl Unbounded \<longrightarrow> (\<exists>n t. pivots n t0 = Some t \<and> \<not> is_optimal t \<and> step t = Inl Unbounded)"
proof (rule optimize.raw_induct [where P = "\<lambda>t0 r. r = Inl Unbounded \<longrightarrow>
          (\<exists>n t. pivots n t0 = Some t \<and> \<not> is_optimal t \<and> step t = Inl Unbounded)", OF _ assms])
  fix opt :: "table \<Rightarrow> (error + table) option" and u r
  assume ih: "\<And>x y. opt x = Some y \<Longrightarrow> y = Inl Unbounded \<longrightarrow>
                 (\<exists>n t. pivots n x = Some t \<and> \<not> is_optimal t \<and> step t = Inl Unbounded)"
    and run: "(if is_optimal u then Some (Inr u)
               else case step u of Inl e \<Rightarrow> Some (Inl e) | Inr t' \<Rightarrow> opt t') = Some r"
  show "r = Inl Unbounded \<longrightarrow>
          (\<exists>n t. pivots n u = Some t \<and> \<not> is_optimal t \<and> step t = Inl Unbounded)"
  proof
    assume r: "r = Inl Unbounded"
    with run have no: "\<not> is_optimal u" by (auto split: if_splits)
    show "\<exists>n t. pivots n u = Some t \<and> \<not> is_optimal t \<and> step t = Inl Unbounded"
    proof (cases "step u")
      case (Inl e)
      with run no r have "step u = Inl Unbounded" by simp
      with no have "pivots 0 u = Some u \<and> \<not> is_optimal u \<and> step u = Inl Unbounded" by simp
      then show ?thesis by blast
    next
      case (Inr t1)
      with run no have "opt t1 = Some r" by simp
      from ih [OF this] r obtain n t where
        "pivots n t1 = Some t" "\<not> is_optimal t" "step t = Inl Unbounded" by blast
      with no Inr have "pivots (Suc n) u = Some t \<and> \<not> is_optimal t \<and> step t = Inl Unbounded"
        by simp
      then show ?thesis by blast
    qed
  qed
qed

lemma optimize_unbounded_iff:
  "(optimize t0 = Some (Inl Unbounded)) = unbounded_run t0"
proof
  assume "optimize t0 = Some (Inl Unbounded)"
  from optimize_unbounded_pivots [OF this] show "unbounded_run t0"
    by (auto simp: unbounded_run_def step_Unbounded_iff)
next
  assume "unbounded_run t0"
  then obtain n t col where "pivots n t0 = Some t" "\<not> is_optimal t"
    "choose_entering_variable t = Inr col" "is_unbounded t col"
    unfolding unbounded_run_def by blast
  then show "optimize t0 = Some (Inl Unbounded)"
    using pivots_unbounded_optimize [of n t0 t] step_Unbounded_iff [of t] by blast
qed


lemma bind_res_Inl:
  "(bind_res x f = Some (Inl e)) =
     (x = Some (Inl e) \<or> (\<exists>a. x = Some (Inr a) \<and> f a = Some (Inl e)))"
  by (cases x) (auto simp: bind_res_def split: sum.splits)

lemma bind_res_Inr_iff:
  "(bind_res x f = Some (Inr v)) = (\<exists>a. x = Some (Inr a) \<and> f a = Some (Inr v))"
  by (cases x) (auto simp: bind_res_def split: sum.splits)

lemma set_item_error: "set_item xs i v = Inl e \<Longrightarrow> e = IndexError"
  by (auto simp: set_item_def Let_def split: if_splits)

lemma extract_basis_loop_error:
  "extract_basis_loop t cs basis = Inl e \<Longrightarrow> e = IndexError"
proof (induction cs arbitrary: basis)
  case Nil
  then show ?case by simp
next
  case (Cons c cs)
  show ?case
  proof (cases "belongs_to_basis (column t c)")
    case False
    with Cons show ?thesis by simp
  next
    case True
    show ?thesis
    proof (cases "index_of 1 (column t c)")
      case None
      with True Cons.prems show ?thesis by simp
    next
      case (Some row)
      show ?thesis
      proof (cases "set_item basis (int row - 1) (int c)")
        case (Inl e')
        with True Some Cons.prems set_item_error [OF Inl] show ?thesis by simp
      next
        case (Inr basis')
        with True Some Cons.prems have "extract_basis_loop t cs basis' = Inl e" by simp
        then show ?thesis by (rule Cons.IH)
      qed
    qed
  qed
qed

lemma extract_basis_error: "extract_basis t = Inl e \<Longrightarrow> e = IndexError"
  unfolding extract_basis_def Let_def by (rule extract_basis_loop_error)

lemma extract_solution_error: "extract_solution t = Inl e \<Longrightarrow> e = IndexError"
  using extract_basis_error [of t]
  by (auto simp: extract_solution_def Let_def split: sum.splits)

lemma translate_error: "translate_to_original_model sol st model = Inl e \<Longrightarrow> e = IndexError"
  by (auto simp: translate_to_original_model_def Let_def split: if_splits)

lemma py_index_error: "py_index n i = Inl e \<Longrightarrow> e = IndexError"
  by (auto simp: py_index_def Let_def split: if_splits)

lemma fix_missing_basis_loop_error:
  "fix_missing_basis_loop t init basis cost_row = Inl e \<Longrightarrow> e = IndexError"
proof (induction basis arbitrary: cost_row)
  case Nil
  then show ?case by simp
next
  case (Cons col_ind basis)
  show ?case
  proof (cases "py_index (ncols t) col_ind")
    case (Inl e')
    with Cons.prems py_index_error [OF Inl] show ?thesis by simp
  next
    case (Inr j)
    show ?thesis
    proof (cases "index_of 1 (drop 1 (column t j))")
      case None
      with Inr Cons.prems show ?thesis by simp
    next
      case (Some k)
      with Inr Cons.prems have "fix_missing_basis_loop t init basis
          (map (\<lambda>(x, y). x - y * init ! j) (zip cost_row (t ! (k + 1)))) = Inl e"
        by (simp add: Let_def)
      then show ?thesis by (rule Cons.IH)
    qed
  qed
qed

lemma fix_missing_basis_error: "fix_missing_basis t basis = Inl e \<Longrightarrow> e = IndexError"
  using fix_missing_basis_loop_error [of t "t ! 0" basis "t ! 0"]
  by (auto simp: fix_missing_basis_def split: sum.splits)

lemma second_phase_tableaux_error:
  "second_phase_tableaux t art m \<noteq> Inl Unbounded"
proof
  assume a: "second_phase_tableaux t art m = Inl Unbounded"
  show False
  proof (cases "extract_basis t")
    case (Inl e)
    with a extract_basis_error [OF Inl] show False
      by (simp add: second_phase_tableaux_def artifical_variables_are_positive_def)
  next
    case (Inr basis)
    show False
    proof (cases "list_ex (\<lambda>x. x \<in> set (map (\<lambda>(var, i). int var) art)) basis")
      case True
      with a Inr show False
        by (simp add: second_phase_tableaux_def artifical_variables_are_positive_def Let_def)
    next
      case False
      show False
      proof (cases "remove_artificial_variables t art")
        case (Inl e)
        then have "e = IndexError"
          by (auto simp: remove_artificial_variables_def Let_def split: if_splits)
        with a Inr False Inl show False
          by (simp add: second_phase_tableaux_def artifical_variables_are_positive_def Let_def)
      next
        case r1: (Inr t1)
        show False
        proof (cases "restore_original_cost_row t1 m")
          case (Inl e)
          then have "e = ValueError"
            by (auto simp: restore_original_cost_row_def Let_def split: if_splits)
          with a Inr False r1 Inl show False
            by (simp add: second_phase_tableaux_def artifical_variables_are_positive_def Let_def)
        next
          case r2: (Inr t2)
          with a Inr False r1 have "fix_missing_basis t2 basis = Inl Unbounded"
            by (simp add: second_phase_tableaux_def artifical_variables_are_positive_def Let_def
                fix_cost_row_to_the_basis_def)
          from fix_missing_basis_error [OF this] show False by simp
        qed
      qed
    qed
  qed
qed

lemma solve_from_tableaux_unbounded:
  "(solve_from_tableaux st model tab = Some (Inl Unbounded)) =
     (tab = Some (Inl Unbounded) \<or> (\<exists>t0. tab = Some (Inr t0) \<and> unbounded_run t0))"
proof -
  have "bind_res (Some (extract_solution t)) (\<lambda>sol. Some (translate_to_original_model sol st model))
          \<noteq> Some (Inl Unbounded)" for t
    using extract_solution_error [of t] translate_error [of _ st model]
    by (auto simp: bind_res_Inl)
  then have "(bind_res (optimize t0) (\<lambda>t. bind_res (Some (extract_solution t))
                 (\<lambda>sol. Some (translate_to_original_model sol st model))) = Some (Inl Unbounded)) =
             (optimize t0 = Some (Inl Unbounded))" for t0
    unfolding bind_res_Inl [of "optimize t0"] by blast
  then show ?thesis
    by (simp add: solve_from_tableaux_def bind_res_Inl [of tab] optimize_unbounded_iff)
qed

lemma presolve_snd:
  "snd (presolve st nm) =
     bind_res (Some (snd (first_phase_tableaux st nm))) (\<lambda>t0.
       bind_res (optimize t0) (\<lambda>t.
         Some (second_phase_tableaux t (fst (first_phase_tableaux st nm))
                 (fst (presolve st nm) ! nm))))"
  by (simp add: presolve_def first_phase_tableaux_def Let_def split_beta)

lemma first_phase_tableaux_error:
  "snd (first_phase_tableaux st nm) \<noteq> Inl Unbounded"
proof
  assume "snd (first_phase_tableaux st nm) = Inl Unbounded"
  then obtain t b where "fix_missing_basis t b = Inl Unbounded"
    by (auto simp: first_phase_tableaux_def presolve_initial_tableaux_def Let_def split_beta)
  from fix_missing_basis_error [OF this] show False by simp
qed

lemma presolve_keeps_model:
  assumes "nm < length st"
  shows "fst (presolve st nm) ! nm = st ! nm"
proof -
  have "extends st (fst (presolve st nm))"
    using presolve_extends [of st nm] by (cases "presolve st nm") auto
  then show ?thesis using assms by (rule extends_nth)
qed


text \<open>
  C6. \<open>solve\<close> raises the unbounded failure exactly when the loop of one of its phases
  comes to a tableau, not optimal, whose chosen entering column \<open>is_unbounded\<close>: in the
  first phase, started on the tableau of the artificial variables, or in the second,
  started on the tableau that the first phase hands over or, with \<open>\<le>\<close> constraints only,
  on the tableau of the normalised model. \<open>is_unbounded\<close> holds of a column exactly when
  every entry of it, the cost row included, is at most 0. The outcome is then the failure
  and no solution.
\<close>

theorem solve_unbounded_iff:
  assumes "normalize_model st model = (st1, normal_model, slack_variables, surplus_variables)"
  shows "(snd (solve st model) = Some (Inl Unbounded)) =
     (if length slack_variables < length (constraints (st1 ! normal_model))
      then (case first_phase_tableaux st1 normal_model of
              (artificial_variables, Inl e) \<Rightarrow> False
            | (artificial_variables, Inr t0) \<Rightarrow>
                unbounded_run t0 \<or>
                (\<exists>t t2. optimize t0 = Some (Inr t) \<and>
                        second_phase_tableaux t artificial_variables (st1 ! normal_model) = Inr t2 \<and>
                        unbounded_run t2))
      else unbounded_run (basic_initial_tableaux (st1 ! normal_model))) \<and>
    (\<forall>t col. is_unbounded t col = (\<forall>r<length t. t ! r ! col \<le> 0))"
proof -
  have nm: "normal_model < length st1"
    using normalize_model_extends [OF assms] by simp
  have col: "\<forall>t col. is_unbounded t col = (\<forall>r<length t. t ! r ! col \<le> 0)"
    by (simp add: is_unbounded_def column_def list_all_length)
  show ?thesis
  proof (cases "length slack_variables < length (constraints (st1 ! normal_model))")
    case False
    then show ?thesis
      using col by (simp add: solve_unfold [OF assms] solve_from_tableaux_unbounded)
  next
    case True
    obtain art ft where f: "first_phase_tableaux st1 normal_model = (art, ft)"
      by (cases "first_phase_tableaux st1 normal_model") auto
    let ?st2 = "fst (presolve st1 normal_model)"
    have keep: "?st2 ! normal_model = st1 ! normal_model"
      using nm by (rule presolve_keeps_model)
    have ps: "snd (presolve st1 normal_model) =
       bind_res (Some ft) (\<lambda>t0. bind_res (optimize t0) (\<lambda>t.
         Some (second_phase_tableaux t art (st1 ! normal_model))))"
      using presolve_snd [of st1 normal_model] by (simp add: f keep)
    have s: "snd (solve st model) = solve_from_tableaux ?st2 model (snd (presolve st1 normal_model))"
      using True by (simp add: solve_unfold [OF assms])
    show ?thesis
    proof (cases ft)
      case (Inl e)
      have "e \<noteq> Unbounded"
        using first_phase_tableaux_error [of st1 normal_model] f Inl by auto
      then have "snd (solve st model) \<noteq> Some (Inl Unbounded)"
        unfolding s solve_from_tableaux_unbounded ps Inl
        by (simp add: bind_res_def)
      then show ?thesis using True f Inl col by simp
    next
      case (Inr t0)
      have a: "(snd (presolve st1 normal_model) = Some (Inl Unbounded)) = unbounded_run t0"
        unfolding ps Inr
        using second_phase_tableaux_error [of _ art "st1 ! normal_model"]
        by (simp add: bind_res_Inl optimize_unbounded_iff)
      have b: "(snd (presolve st1 normal_model) = Some (Inr t2)) =
               (\<exists>t. optimize t0 = Some (Inr t) \<and>
                    second_phase_tableaux t art (st1 ! normal_model) = Inr t2)" for t2
        unfolding ps Inr by (simp add: bind_res_Inr_iff)
      have "(snd (solve st model) = Some (Inl Unbounded)) =
            (unbounded_run t0 \<or>
             (\<exists>t t2. optimize t0 = Some (Inr t) \<and>
                     second_phase_tableaux t art (st1 ! normal_model) = Inr t2 \<and>
                     unbounded_run t2))"
        unfolding s solve_from_tableaux_unbounded a b by blast
      then show ?thesis using True f Inr col by simp
    qed
  qed
qed

theorem solve_unbounded_iff_witness:
  "normalize_model [unbounded_model] 0 =
     ([unbounded_model,
       \<lparr>variables = [''x1'', ''x2'', ''s0''],
        constraints = [\<lparr>c_expression = [(1, 1), (2, 1)], c_type = LE, bound = 1\<rparr>],
        objective = \<lparr>o_expression = [(0, 1)], o_type = OMAX\<rparr>\<rparr>],
      1, [(2, 0)], []) \<and>
   snd (solve [unbounded_model] 0) = Some (Inl Unbounded) \<and>
   is_unbounded [[- 1, 0, 0, 0], [0, 1, 1, 1]] 0"
proof -
  let ?nm = "\<lparr>variables = [''x1'', ''x2'', ''s0''],
        constraints = [\<lparr>c_expression = [(1, 1), (2, 1)], c_type = LE, bound = 1\<rparr>],
        objective = \<lparr>o_expression = [(0, 1)], o_type = OMAX\<rparr>\<rparr>"
  have h: "normalize_model [unbounded_model] 0 = ([unbounded_model, ?nm], 1, [(2, 0)], [])"
    by code_simp
  have t: "basic_initial_tableaux ?nm = [[- 1, 0, 0, 0], [0, 1, 1, 1]]" by code_simp
  have u: "pivots 0 [[- 1, 0, 0, 0], [0, 1, 1, 1]] = Some [[- 1, 0, 0, 0], [0, 1, 1, 1]] \<and>
        \<not> is_optimal [[- 1, 0, 0, 0], [0, 1, 1, 1]] \<and>
        choose_entering_variable [[- 1, 0, 0, 0], [0, 1, 1, 1]] = Inr 0 \<and>
        is_unbounded [[- 1, 0, 0, 0], [0, 1, 1, 1]] 0"
    by code_simp
  then have r: "unbounded_run [[- 1, 0, 0, 0], [0, 1, 1, 1]]"
    unfolding unbounded_run_def by blast
  from solve_unbounded_iff [OF h] r t u h show ?thesis by simp
qed

section \<open>The solvers on the example models\<close>

lemma optimize_Some_not_cycle:
  assumes c: "\<not> is_optimal t" "step t = Inr t'" "\<not> is_optimal t'" "step t' = Inr t"
    and s: "optimize s = Some y"
  shows "s \<noteq> t \<and> s \<noteq> t'"
proof (rule optimize.raw_induct [where P = "\<lambda>s y. s \<noteq> t \<and> s \<noteq> t'", OF _ s])
  fix opt :: "table \<Rightarrow> (error + table) option" and u r
  assume ih: "\<And>x y. opt x = Some y \<Longrightarrow> x \<noteq> t \<and> x \<noteq> t'"
    and run: "(if is_optimal u then Some (Inr u)
               else case step u of Inl e \<Rightarrow> Some (Inl e) | Inr t' \<Rightarrow> opt t') = Some r"
  show "u \<noteq> t \<and> u \<noteq> t'"
  proof (intro conjI notI)
    assume "u = t"
    with run c have "opt t' = Some r" by simp
    with ih show False by blast
  next
    assume "u = t'"
    with run c have "opt t = Some r" by simp
    with ih show False by blast
  qed
qed

lemma optimize_cycle:
  assumes "\<not> is_optimal t" "step t = Inr t'" "\<not> is_optimal t'" "step t' = Inr t"
  shows "optimize t = None"
proof (cases "optimize t")
  case None
  then show ?thesis .
next
  case (Some y)
  from optimize_Some_not_cycle [OF assms Some] show ?thesis by simp
qed

text \<open>
  On the model of integer\_01\_solvable.py the simplex solver does not return the
  assignment \<open>[0, 5]\<close>: that is the optimum over the integers, which the script asserts
  of the integer-programming model.
\<close>

theorem integer_01_solution_is_not_integral:
  "snd (solve [integer_01_solvable] 0) \<noteq> Some (Inr \<lparr>sol_model = 0, assignment = [0, 5]\<rparr>)"
  by code_simp

text \<open>
  C9, as the simplex solver has it. Solving maximize \<open>5 x1 + 8 x2\<close> subject to
  \<open>x1 + x2 \<le> 6\<close> and \<open>5 x1 + 9 x2 \<le> 45\<close> (no first phase) returns the assignment
  \<open>[9/4, 15/4]\<close>, of objective value \<open>165/4\<close>.
\<close>

theorem integer_01_relaxation_optimum:
  "snd (solve [integer_01_solvable] 0) =
     Some (Inr \<lparr>sol_model = 0, assignment = [9 / 4, 15 / 4]\<rparr>) \<and>
   objective_value (fst (solve [integer_01_solvable] 0))
     \<lparr>sol_model = 0, assignment = [9 / 4, 15 / 4]\<rparr> = 165 / 4"
  by code_simp

text \<open>
  C1. \<open>_artifical_variables_are_positive\<close> only asks whether an artificial variable is in
  the extracted basis. On the feasible model \<open>redundant_equalities\<close> the first phase ends
  with the artificial variable of index 2 in the basis (basis \<open>[0, 2]\<close>) at value 0
  (solution \<open>[1, 0, 0]\<close>), and \<open>solve\<close> raises the infeasibility error.
\<close>

theorem degenerate_artificial_raises_infeasible:
  "first_phase_tableaux (fst (normalize_model [redundant_equalities] 0)) 1 =
     ([(1, 0), (2, 1)], Inr [[- 2, 0, 0, - 2], [1, 1, 0, 1], [1, 0, 1, 1]]) \<and>
   optimize [[- 2, 0, 0, - 2], [1, 1, 0, 1], [1, 0, 1, 1]] =
     Some (Inr [[0, 2, 0, 0], [1, 1, 0, 1], [0, - 1, 1, 0]]) \<and>
   extract_basis [[0, 2, 0, 0], [1, 1, 0, 1], [0, - 1, 1, 0]] = Inr [0, 2] \<and>
   extract_solution [[0, 2, 0, 0], [1, 1, 0, 1], [0, - 1, 1, 0]] = Inr [1, 0, 0] \<and>
   snd (solve [redundant_equalities] 0) = Some (Inl Infeasible)"
  by code_simp

text \<open>
  C2. \<open>choose_leaving_variable\<close> filters the quotients, not the entries of the pivot
  column. In the first tableau of \<open>degenerate_ratio\<close>, for the entering column 0, row 1 has
  the entry -1 and right-hand side 0, row 2 the entry 1 and right-hand side 2: the
  quotient of row 1 passes \<open>a >= 0\<close> and row 1 is returned, not row 2. The pivot on the
  negative entry is undone by the next one, and \<open>solve\<close> never returns on this bounded,
  feasible model.
\<close>

theorem leaving_row_with_negative_entry:
  "basic_initial_tableaux (fst (normalize_model [degenerate_ratio] 0) ! 1) = degenerate_ratio_tableaux \<and>
   choose_entering_variable degenerate_ratio_tableaux = Inr 0 \<and>
   \<not> is_unbounded degenerate_ratio_tableaux 0 \<and>
   degenerate_ratio_tableaux ! 1 ! 0 = - 1 \<and>
   degenerate_ratio_tableaux ! 2 ! 0 = 1 \<and>
   choose_leaving_variable degenerate_ratio_tableaux 0 = Inr 1 \<and>
   snd (solve [degenerate_ratio] 0) = None"
proof -
  define nm where "nm = \<lparr>variables = [''x1'', ''s0'', ''s1''],
      constraints = [\<lparr>c_expression = [(0, - 1), (1, 1)], c_type = LE, bound = 0\<rparr>,
                     \<lparr>c_expression = [(0, 1), (2, 1)], c_type = LE, bound = 2\<rparr>],
      objective = \<lparr>o_expression = [(0, 1)], o_type = OMAX\<rparr>\<rparr>"
  let ?t' = "[[0, - 1, 0, 0], [1, - 1, 0, 0], [0, 1, 1, 2]] :: table"
  have n: "normalize_model [degenerate_ratio] 0 =
             ([degenerate_ratio, nm], 1, [(1, 0), (2, 1)], [])"
    unfolding nm_def by code_simp
  have t: "basic_initial_tableaux nm = degenerate_ratio_tableaux"
    unfolding nm_def by code_simp
  have l: "length (constraints nm) = 2" by (simp add: nm_def)
  have e: "choose_entering_variable degenerate_ratio_tableaux = Inr 0 \<and>
           \<not> is_unbounded degenerate_ratio_tableaux 0 \<and>
           degenerate_ratio_tableaux ! 1 ! 0 = - 1 \<and>
           degenerate_ratio_tableaux ! 2 ! 0 = 1 \<and>
           choose_leaving_variable degenerate_ratio_tableaux 0 = Inr 1"
    by code_simp
  have c: "\<not> is_optimal degenerate_ratio_tableaux" "step degenerate_ratio_tableaux = Inr ?t'"
    "\<not> is_optimal ?t'" "step ?t' = Inr degenerate_ratio_tableaux"
    by code_simp+
  have o: "optimize degenerate_ratio_tableaux = None" using c by (rule optimize_cycle)
  have "snd (solve [degenerate_ratio] 0) = None"
    by (simp add: solve_unfold [OF n] l t o solve_from_tableaux_def bind_res_def)
  moreover have "basic_initial_tableaux (fst (normalize_model [degenerate_ratio] 0) ! 1) =
      degenerate_ratio_tableaux"
    by (simp add: n t)
  ultimately show ?thesis using e by simp
qed

text \<open>
  C7. \<open>extract_basis\<close> tests whole columns, cost row included. After the one pivot that
  \<open>solve\<close> makes on \<open>free_cost_column\<close>, column 1 is \<open>[1, 0]\<close>, its 1 in the cost row:
  it passes the test, \<open>row - 1\<close> is -1, and it overwrites the entry of column 0, the unit
  column of constraint row 1. \<open>extract_basis\<close> returns \<open>[1]\<close>, and \<open>solve\<close> returns
  \<open>x1 = 0, x2 = 5\<close> (objective -5) where \<open>x1 = 5, x2 = 0\<close> is feasible with objective 5.
\<close>

theorem basis_column_with_one_in_cost_row:
  "basic_initial_tableaux (fst (normalize_model [free_cost_column] 0) ! 1) =
     [[- 1, 1, 0, 0], [1, 0, 1, 5]] \<and>
   pivots 1 [[- 1, 1, 0, 0], [1, 0, 1, 5]] = Some [[0, 1, 1, 5], [1, 0, 1, 5]] \<and>
   extract_basis [[0, 1, 1, 5], [1, 0, 1, 5]] = Inr [1] \<and>
   column [[0, 1, 1, 5], [1, 0, 1, 5]] 1 = [1, 0] \<and>
   column [[0, 1, 1, 5], [1, 0, 1, 5]] 0 = [0, 1] \<and>
   snd (solve [free_cost_column] 0) = Some (Inr \<lparr>sol_model = 0, assignment = [0, 5]\<rparr>)"
  by code_simp

end
